theory Spec2Isabelle
  imports Main "HOL-Library.Multiset"
begin

section \<open>GitLab issue synchronisation: \<open>GitlabCommonInterfacesService\<close>\<close>

text \<open>
  A shallow embedding of
  \<^verbatim>\<open>src/app/features/issue/providers/gitlab/gitlab-common-interfaces.service.ts\<close>.
  The two collaborators of the service (the project service that yields the per-project
  configuration and the GitLab API client) are fields of an environment record; every
  call made to them is appended to a log, so that "before any call" is a statement about
  the log. A rejected promise or a thrown exception is the \<open>Inl\<close> branch of a sum.
\<close>

subsection \<open>JavaScript values\<close>

text \<open>
  A JavaScript number that holds an integer, or \<open>NaN\<close>. The numbers of this file are
  millisecond time stamps (\<^verbatim>\<open>new Date(s).getTime()\<close>, an integer or \<open>NaN\<close>) and
  issue numbers, far below \<open>2^53\<close>, where the arithmetic of doubles is exact.
\<close>

datatype jsnum = NaN | Num int

text \<open>\<^verbatim>\<open>a > b\<close> on numbers: false as soon as one side is \<open>NaN\<close>.\<close>

fun js_gt :: "jsnum \<Rightarrow> jsnum \<Rightarrow> bool" where
  "js_gt (Num a) (Num b) = (b < a)"
| "js_gt _ _ = False"

text \<open>\<^verbatim>\<open>x || 0\<close> for \<^verbatim>\<open>x: number | null\<close>: \<open>null\<close>, \<open>0\<close> and \<open>NaN\<close> are falsy.\<close>

fun or_zero :: "jsnum option \<Rightarrow> jsnum" where
  "or_zero None = Num 0"
| "or_zero (Some NaN) = Num 0"
| "or_zero (Some (Num n)) = Num n"

text \<open>Truthiness of a \<^verbatim>\<open>string | null\<close>: \<open>null\<close> and the empty string are falsy.\<close>

fun truthy :: "string option \<Rightarrow> bool" where
  "truthy None = False"
| "truthy (Some s) = (s \<noteq> [])"

text \<open>\<open>Number::toString\<close> on an integer: its decimal digits, with a leading minus sign.\<close>

definition digit_char :: "nat \<Rightarrow> char" where
  "digit_char d = ''0123456789'' ! d"

fun nat_to_string :: "nat \<Rightarrow> string" where
  "nat_to_string n =
     (if n < 10 then [digit_char n]
      else nat_to_string (n div 10) @ [digit_char (n mod 10)])"

declare nat_to_string.simps [simp del]

definition int_to_string :: "int \<Rightarrow> string" where
  "int_to_string i =
     (if i < 0 then CHR ''-'' # nat_to_string (nat (- i)) else nat_to_string (nat i))"

fun ToString :: "jsnum \<Rightarrow> string" where
  "ToString NaN = ''NaN''"
| "ToString (Num i) = int_to_string i"

text \<open>
  \<^verbatim>\<open>+s\<close> for \<^verbatim>\<open>s: string | null\<close>, on the issue ids GitLab gives: \<open>+null\<close> and
  \<open>+''\<close> are \<open>0\<close>, and a string of decimal digits is the number it writes, exactly so
  below \<open>2^53\<close>. This is the domain \<open>numeric_id\<close> below names. Outside it the function is
  not JavaScript's: it answers \<open>NaN\<close> for every other string (the signed, fractional,
  exponent, hexadecimal and blank-padded literals are numbers in JavaScript) and does not
  round above \<open>2^53\<close>. Every statement that depends on the number an issue id stands for
  carries \<open>numeric_id\<close> as a hypothesis.
\<close>

definition is_digit :: "char \<Rightarrow> bool" where
  "is_digit c = (c \<in> set ''0123456789'')"

definition digit_val :: "char \<Rightarrow> int" where
  "digit_val c = int (of_char c) - 48"

definition to_number :: "string option \<Rightarrow> jsnum" where
  "to_number s =
     (case s of
        None \<Rightarrow> Num 0
      | Some cs \<Rightarrow>
          if list_all is_digit cs then Num (foldl (\<lambda>acc c. 10 * acc + digit_val c) 0 cs)
          else NaN)"

definition numeric_id :: "string option \<Rightarrow> bool" where
  "numeric_id s = (case to_number s of NaN \<Rightarrow> False | Num n \<Rightarrow> n < 9007199254740992)"


text \<open>
  \<^verbatim>\<open>Array.prototype.sort()\<close> with no comparator orders the elements by their
  \<open>ToString\<close> images, compared as strings, code unit by code unit. The sort is stable;
  it is an insertion sort here.
\<close>

fun js_string_less :: "string \<Rightarrow> string \<Rightarrow> bool" where
  "js_string_less [] [] = False"
| "js_string_less [] (y # ys) = True"
| "js_string_less (x # xs) [] = False"
| "js_string_less (x # xs) (y # ys) =
     ((of_char x :: nat) < of_char y \<or> (x = y \<and> js_string_less xs ys))"

fun insert_default :: "jsnum \<Rightarrow> jsnum list \<Rightarrow> jsnum list" where
  "insert_default a [] = [a]"
| "insert_default a (b # bs) =
     (if js_string_less (ToString b) (ToString a) then b # insert_default a bs
      else a # b # bs)"

definition sort_default :: "jsnum list \<Rightarrow> jsnum list" where
  "sort_default xs = foldr insert_default xs []"

subsection \<open>Data model\<close>

text \<open>
  The fields of \<open>Task\<close>, \<open>GitlabCfg\<close> and \<open>GitlabIssue\<close> that the service reads. The
  fields \<open>updated_at\<close> and \<open>created_at\<close> hold the value of
  \<^verbatim>\<open>new Date(...).getTime()\<close> on the date string of the issue or comment.
\<close>

record Task =
  projectId :: "string option"
  issueId :: "string option"
  issueLastUpdated :: "jsnum option"

record GitlabCfg =
  isSearchIssuesFromGitlab :: bool
  filterUsername :: "string option"
  gitlabBaseUrl :: "string option"
  project :: "string option"

record GitlabUser =
  username :: string

record GitlabComment =
  author :: GitlabUser
  created_at :: jsnum

record GitlabIssue =
  number :: int
  title :: string
  updated_at :: jsnum
  weight :: "int option"
  comments :: "GitlabComment list"

text \<open>
  The \<^verbatim>\<open>Partial<Task> & { title: string }\<close> that \<open>getAddTaskData\<close> builds. The fields
  that share a name with a field above carry the suffix \<open>_chg\<close>.
\<close>

record TaskChanges =
  title_chg :: string
  issuePoints :: "int option"
  issueWasUpdated :: bool
  issueLastUpdated_chg :: jsnum

record FreshData =
  taskChanges :: TaskChanges
  issue :: GitlabIssue

record FreshDataOne = FreshData +
  issueTitle :: string

record FreshDataMany = FreshData +
  task :: Task

subsection \<open>Collaborators, errors and the call log\<close>

datatype error =
    Error string \<comment> \<open>\<^verbatim>\<open>throw new Error(msg)\<close> of the service itself\<close>
  | TypeError \<comment> \<open>a property read on \<open>undefined\<close>\<close>
  | RemoteError string \<comment> \<open>a failure of a collaborator\<close>

datatype call =
    GetGitlabCfgForProject string
  | GetById jsnum GitlabCfg
  | GetByIds "string option list" GitlabCfg
  | SearchIssueInProject string GitlabCfg
  | GetProjectIssues int GitlabCfg

text \<open>
  An observable that has terminated: the values it emitted, and the error it ended with,
  if any.
\<close>

record 'a obs =
  emitted :: "'a list"
  failed :: "error option"

text \<open>
  \<open>getGitlabCfgForProject p\<close> is the outcome of taking the first value of the
  configuration stream; the API functions give the outcome of \<^verbatim>\<open>.toPromise()\<close> on
  the client's observable. \<open>GITLAB_BASE_URL\<close> (\<^verbatim>\<open>gitlab.const\<close>) and \<open>truncate\<close> (here \<open>truncate_util\<close>)
  (\<^verbatim>\<open>util/truncate\<close>) are imported by the service and not part of it.
\<close>

record 's env =
  getGitlabCfgForProject :: "string \<Rightarrow> error + GitlabCfg"
  getById :: "jsnum \<Rightarrow> GitlabCfg \<Rightarrow> error + GitlabIssue"
  getByIds :: "string option list \<Rightarrow> GitlabCfg \<Rightarrow> error + GitlabIssue list"
  searchIssueInProject :: "string \<Rightarrow> GitlabCfg \<Rightarrow> 's list obs"
  getProjectIssues :: "int \<Rightarrow> GitlabCfg \<Rightarrow> error + GitlabIssue list"
  GITLAB_BASE_URL :: string
  truncate_util :: "string \<Rightarrow> string"

subsection \<open>Change detection\<close>

definition formatIssueTitle :: "int \<Rightarrow> string \<Rightarrow> string" where
  "formatIssueTitle i t = ''#'' @ int_to_string i @ '' '' @ t"

definition formatIssueTitleForSnack :: "'s env \<Rightarrow> int \<Rightarrow> string \<Rightarrow> string" where
  "formatIssueTitleForSnack e i t = truncate_util e (formatIssueTitle i t)"

definition getAddTaskData :: "GitlabIssue \<Rightarrow> TaskChanges" where
  "getAddTaskData i =
     \<lparr> title_chg = formatIssueTitle (number i) (title i),
       issuePoints = weight i,
       issueWasUpdated = False,
       issueLastUpdated_chg = updated_at i \<rparr>"

text \<open>The locals of the change detection, which both fetch functions compute alike.\<close>

definition commentsByOthers :: "GitlabCfg \<Rightarrow> GitlabIssue \<Rightarrow> GitlabComment list" where
  "commentsByOthers cfg i =
     (case filterUsername cfg of
        None \<Rightarrow> comments i
      | Some u \<Rightarrow>
          if u \<noteq> [] \<and> 1 < length u
          then filter (\<lambda>c. username (author c) \<noteq> u) (comments i)
          else comments i)"

definition updates :: "GitlabCfg \<Rightarrow> GitlabIssue \<Rightarrow> jsnum list" where
  "updates cfg i = sort_default (map created_at (commentsByOthers cfg i) @ [updated_at i])"

definition lastRemoteUpdate :: "GitlabCfg \<Rightarrow> GitlabIssue \<Rightarrow> jsnum" where
  "lastRemoteUpdate cfg i = last (updates cfg i)"

definition wasUpdated :: "GitlabCfg \<Rightarrow> GitlabIssue \<Rightarrow> Task \<Rightarrow> bool" where
  "wasUpdated cfg i t = js_gt (lastRemoteUpdate cfg i) (or_zero (issueLastUpdated t))"

definition getFreshDataForIssueTask ::
  "'s env \<Rightarrow> Task \<Rightarrow> call list \<times> (error + FreshDataOne option)" where
  "getFreshDataForIssueTask e t =
     (case projectId t of
        None \<Rightarrow> ([], Inl (Error ''No projectId''))
      | Some p \<Rightarrow>
          if p = [] then ([], Inl (Error ''No projectId''))
          else if \<not> truthy (issueId t) then ([], Inl (Error ''No issueId''))
          else
            (case getGitlabCfgForProject e p of
               Inl err \<Rightarrow> ([GetGitlabCfgForProject p], Inl err)
             | Inr cfg \<Rightarrow>
                 (case getById e (to_number (issueId t)) cfg of
                    Inl err \<Rightarrow>
                      ([GetGitlabCfgForProject p, GetById (to_number (issueId t)) cfg],
                       Inl err)
                  | Inr i \<Rightarrow>
                      ([GetGitlabCfgForProject p, GetById (to_number (issueId t)) cfg],
                       Inr (if wasUpdated cfg i t
                            then Some \<lparr> taskChanges = (getAddTaskData i)\<lparr>issueWasUpdated := True\<rparr>,
                                        issue = i,
                                        issueTitle = formatIssueTitleForSnack e (number i) (title i) \<rparr>
                            else None)))))"

subsection \<open>Refreshing many tasks\<close>

text \<open>
  \<^verbatim>\<open>tasks.sort((a, b) => +b.issueId - +a.issueId)\<close>. The comparator's value is a
  number; \<open>NaN\<close> counts as \<open>0\<close>, and \<open>a\<close> is placed after \<open>b\<close> only when the value is
  positive. The sort is in place: the sorted list is what the caller's array holds
  afterwards. When every id is a number (\<open>numeric_id\<close>) the comparator is consistent and
  the language fixes the result: the stable sort, which the insertion sort below computes.
  When some id is not a number the comparator is not consistent, the language leaves the
  order to the engine, and the insertion sort is only one of the orders an engine may
  produce; every statement about the order carries \<open>numeric_id\<close> as a hypothesis.
\<close>

fun js_minus :: "jsnum \<Rightarrow> jsnum \<Rightarrow> jsnum" where
  "js_minus (Num a) (Num b) = Num (a - b)"
| "js_minus _ _ = NaN"

definition compare_issueId :: "Task \<Rightarrow> Task \<Rightarrow> jsnum" where
  "compare_issueId a b = js_minus (to_number (issueId b)) (to_number (issueId a))"

fun comes_after :: "jsnum \<Rightarrow> bool" where
  "comes_after NaN = False"
| "comes_after (Num v) = (0 < v)"

fun insert_by :: "('a \<Rightarrow> 'a \<Rightarrow> jsnum) \<Rightarrow> 'a \<Rightarrow> 'a list \<Rightarrow> 'a list" where
  "insert_by cmp a [] = [a]"
| "insert_by cmp a (b # bs) =
     (if comes_after (cmp a b) then b # insert_by cmp a bs else a # b # bs)"

definition sort_by :: "('a \<Rightarrow> 'a \<Rightarrow> jsnum) \<Rightarrow> 'a list \<Rightarrow> 'a list" where
  "sort_by cmp xs = foldr (insert_by cmp) xs []"

definition paramsCount :: nat where
  "paramsCount = 59"

text \<open>
  The inner loop
  \<^verbatim>\<open>for (let j = 0; j < paramsCount && i < tasks.length; j++, i++) ids.push(tasks[i].issueId)\<close>:
  it returns the ids collected and the new value of \<open>i\<close>.
\<close>

function collect_ids ::
  "Task list \<Rightarrow> nat \<Rightarrow> nat \<Rightarrow> string option list \<Rightarrow> string option list \<times> nat" where
  "collect_ids tasks i j ids =
     (if j < paramsCount \<and> i < length tasks
      then collect_ids tasks (i + 1) (j + 1) (ids @ [issueId (tasks ! i)])
      else (ids, i))"
  by pat_completeness auto
termination
  by (relation "measure (\<lambda>(tasks, i, j, ids). paramsCount - j)") auto

declare collect_ids.simps [simp del]

lemma collect_ids_index:
  "collect_ids tasks i j ids = (ids', i') \<Longrightarrow>
   i' = min (i + (paramsCount - j)) (max i (length tasks))"
proof (induction tasks i j ids rule: collect_ids.induct)
  case (1 tasks i j ids)
  show ?case
  proof (cases "j < paramsCount \<and> i < length tasks")
    case True
    with "1.prems" have "collect_ids tasks (i + 1) (j + 1) (ids @ [issueId (tasks ! i)]) = (ids', i')"
      by (simp add: collect_ids.simps [of tasks i j ids])
    from "1.IH" [OF True this] True show ?thesis by auto
  next
    case False
    with "1.prems" have "i' = i"
      by (simp add: collect_ids.simps [of tasks i j ids])
    with False show ?thesis by auto
  qed
qed

text \<open>
  The outer loop \<^verbatim>\<open>while (i < tasks.length)\<close>: one call of \<open>getByIds$\<close> for each
  chunk, awaited before the next; a rejected call ends the function with its error.
\<close>

function fetch_issues ::
  "'s env \<Rightarrow> GitlabCfg \<Rightarrow> Task list \<Rightarrow> nat \<Rightarrow> GitlabIssue list \<Rightarrow> call list
     \<Rightarrow> call list \<times> (error + GitlabIssue list)" where
  "fetch_issues e cfg tasks i issues log =
     (if i < length tasks then
        (case collect_ids tasks i 0 [] of
           (ids, i') \<Rightarrow>
             (case getByIds e ids cfg of
                Inl err \<Rightarrow> (log @ [GetByIds ids cfg], Inl err)
              | Inr fetched \<Rightarrow>
                  fetch_issues e cfg tasks i' (issues @ fetched) (log @ [GetByIds ids cfg])))
      else (log, Inr issues))"
  by pat_completeness auto
termination
  apply (relation "measure (\<lambda>(e, cfg, tasks, i, issues, log). length tasks - i)")
   apply simp
  apply (auto dest!: collect_ids_index [OF sym] simp: paramsCount_def)
  done

declare fetch_issues.simps [simp del]

text \<open>
  The second loop \<^verbatim>\<open>for (i = 0; i < tasks.length; i++)\<close>. Reading
  \<^verbatim>\<open>issues[i].updated_at\<close> past the end of \<open>issues\<close> is a property read on
  \<open>undefined\<close>, a \<open>TypeError\<close>.
\<close>

function check_updates ::
  "GitlabCfg \<Rightarrow> Task list \<Rightarrow> GitlabIssue list \<Rightarrow> nat \<Rightarrow> FreshDataMany list
     \<Rightarrow> error + FreshDataMany list" where
  "check_updates cfg tasks issues i updatedIssues =
     (if i < length tasks then
        (if i < length issues then
           check_updates cfg tasks issues (i + 1)
             (if wasUpdated cfg (issues ! i) (tasks ! i)
              then updatedIssues @
                     [\<lparr> taskChanges = (getAddTaskData (issues ! i))\<lparr>issueWasUpdated := True\<rparr>,
                        issue = issues ! i,
                        task = tasks ! i \<rparr>]
              else updatedIssues)
         else Inl TypeError)
      else Inr updatedIssues)"
  by pat_completeness auto
termination
  by (relation "measure (\<lambda>(cfg, tasks, issues, i, acc). length tasks - i)") auto

declare check_updates.simps [simp del]

text \<open>
  The first component of the result is the caller's array after the call. Reading
  \<^verbatim>\<open>tasks[0].projectId\<close> on an empty array is a property read on \<open>undefined\<close>.
\<close>

definition getFreshDataForIssueTasks ::
  "'s env \<Rightarrow> Task list \<Rightarrow> Task list \<times> call list \<times> (error + FreshDataMany list)" where
  "getFreshDataForIssueTasks e tasks0 =
     (let tasks = sort_by compare_issueId tasks0 in
      case tasks of
        [] \<Rightarrow> (tasks, [], Inl TypeError)
      | t0 # _ \<Rightarrow>
          (case projectId t0 of
             None \<Rightarrow> (tasks, [], Inl (Error ''No projectId''))
           | Some p \<Rightarrow>
               if p = [] then (tasks, [], Inl (Error ''No projectId''))
               else
                 (case getGitlabCfgForProject e p of
                    Inl err \<Rightarrow> (tasks, [GetGitlabCfgForProject p], Inl err)
                  | Inr cfg \<Rightarrow>
                      (case fetch_issues e cfg tasks 0 [] [GetGitlabCfgForProject p] of
                         (log, Inl err) \<Rightarrow> (tasks, log, Inl err)
                       | (log, Inr issues) \<Rightarrow>
                           (tasks, log, check_updates cfg tasks issues 0 [])))))"

subsection \<open>Issue links, search and the backlog\<close>

text \<open>
  \<^verbatim>\<open>s.match(/.*\/$/)\<close> succeeds exactly when \<open>s\<close> ends with a slash: the pattern is
  not anchored at the start, and \<open>$\<close> (no \<open>m\<close> flag) is the end of the input.
\<close>

definition ends_with_slash :: "string \<Rightarrow> bool" where
  "ends_with_slash s = (s \<noteq> [] \<and> last s = CHR ''/'')"

text \<open>\<^verbatim>\<open>s.replace(/%2F/g, '/')\<close>: every occurrence, left to right.\<close>

fun replace_2F :: "string \<Rightarrow> string" where
  "replace_2F (a # b # c # rest) =
     (if a = CHR ''%'' \<and> b = CHR ''2'' \<and> c = CHR ''F'' then CHR ''/'' # replace_2F rest
      else a # replace_2F (b # c # rest))"
| "replace_2F s = s"

text \<open>
  The function mapped over the configuration, with its local \<open>fixedUrl\<close> as a
  definition of its own. The base URL is used when it is truthy (neither \<open>null\<close>
  nor empty). A \<open>null\<close> project is written \<open>null\<close> by the template literal of that
  branch; in the other, \<^verbatim>\<open>cfg.project?.replace\<close> is \<open>undefined\<close> then.
\<close>

definition fixedUrl :: "string \<Rightarrow> string" where
  "fixedUrl b = (if ends_with_slash b then b else b @ ''/'')"

definition issueLink_of_cfg :: "string \<Rightarrow> GitlabCfg \<Rightarrow> jsnum \<Rightarrow> string" where
  "issueLink_of_cfg base cfg issueId' =
     (let fallback =
            base @ (case project cfg of None \<Rightarrow> ''undefined'' | Some p \<Rightarrow> replace_2F p)
              @ ''/issues/'' @ ToString issueId'
      in case gitlabBaseUrl cfg of
           None \<Rightarrow> fallback
         | Some b \<Rightarrow>
             if b = [] then fallback
             else fixedUrl b @ (case project cfg of None \<Rightarrow> ''null'' | Some p \<Rightarrow> p)
                    @ ''/issues/'' @ ToString issueId')"

definition issueLink :: "'s env \<Rightarrow> jsnum \<Rightarrow> string \<Rightarrow> call list \<times> (error + string)" where
  "issueLink e issueId' p =
     ([GetGitlabCfgForProject p],
      case getGitlabCfgForProject e p of
        Inl err \<Rightarrow> Inl err
      | Inr cfg \<Rightarrow> Inr (issueLink_of_cfg (GITLAB_BASE_URL e) cfg issueId'))"

text \<open>
  \<open>of(x)\<close> emits \<open>x\<close> and completes. \<open>catchError(h)\<close> replaces the error of its source by
  the observable \<open>h\<close> returns; the handler of \<open>searchIssues$\<close> returns the empty array,
  which as an observable emits nothing and completes.
\<close>

definition of_obs :: "'a \<Rightarrow> 'a obs" where
  "of_obs x = \<lparr> emitted = [x], failed = None \<rparr>"

definition from_array :: "'a list \<Rightarrow> 'a obs" where
  "from_array xs = \<lparr> emitted = xs, failed = None \<rparr>"

definition catchError :: "(error \<Rightarrow> 'a obs) \<Rightarrow> 'a obs \<Rightarrow> 'a obs" where
  "catchError h src =
     (case failed src of
        None \<Rightarrow> src
      | Some err \<Rightarrow> \<lparr> emitted = emitted src @ emitted (h err), failed = failed (h err) \<rparr>)"

definition searchIssues :: "'s env \<Rightarrow> string \<Rightarrow> string \<Rightarrow> call list \<times> 's list obs" where
  "searchIssues e searchTerm p =
     (case getGitlabCfgForProject e p of
        Inl err \<Rightarrow> ([GetGitlabCfgForProject p], \<lparr> emitted = [], failed = Some err \<rparr>)
      | Inr gitlabCfg \<Rightarrow>
          if isSearchIssuesFromGitlab gitlabCfg
          then ([GetGitlabCfgForProject p, SearchIssueInProject searchTerm gitlabCfg],
                catchError (\<lambda>_. from_array []) (searchIssueInProject e searchTerm gitlabCfg))
          else ([GetGitlabCfgForProject p], of_obs []))"

definition getNewIssuesToAddToBacklog ::
  "'s env \<Rightarrow> string \<Rightarrow> 'i list \<Rightarrow> call list \<times> (error + GitlabIssue list)" where
  "getNewIssuesToAddToBacklog e p allExistingIssueIds =
     (case getGitlabCfgForProject e p of
        Inl err \<Rightarrow> ([GetGitlabCfgForProject p], Inl err)
      | Inr cfg \<Rightarrow>
          ([GetGitlabCfgForProject p, GetProjectIssues 1 cfg], getProjectIssues e 1 cfg))"

subsection \<open>What the specification says\<close>

text \<open>
  The change detection and the payload in the words of the specification, to compare the
  code with: the latest remote update is the maximum of the candidate time stamps, as
  numbers (\<open>NaN\<close> if one of them is \<open>NaN\<close>, as \<open>Math.max\<close> has it); the payload of a
  detected change has the title \<open>#<number> <title>\<close>, the issue's weight, the issue's
  own update time, and the flag set.
\<close>

fun js_max :: "jsnum \<Rightarrow> jsnum \<Rightarrow> jsnum" where
  "js_max (Num a) (Num b) = Num (max a b)"
| "js_max _ _ = NaN"

definition spec_lastRemoteUpdate :: "GitlabCfg \<Rightarrow> GitlabIssue \<Rightarrow> jsnum" where
  "spec_lastRemoteUpdate cfg i =
     foldr js_max (map created_at (commentsByOthers cfg i)) (updated_at i)"

definition spec_wasUpdated :: "GitlabCfg \<Rightarrow> GitlabIssue \<Rightarrow> Task \<Rightarrow> bool" where
  "spec_wasUpdated cfg i t = js_gt (spec_lastRemoteUpdate cfg i) (or_zero (issueLastUpdated t))"

definition spec_taskChanges :: "GitlabIssue \<Rightarrow> TaskChanges" where
  "spec_taskChanges i =
     \<lparr> title_chg = ''#'' @ int_to_string (number i) @ '' '' @ title i,
       issuePoints = weight i,
       issueWasUpdated = True,
       issueLastUpdated_chg = updated_at i \<rparr>"

text \<open>
  "Exactly one trailing slash", and an occurrence of the encoded path separator \<open>%2F\<close>.
\<close>

definition exactly_one_trailing_slash :: "string \<Rightarrow> bool" where
  "exactly_one_trailing_slash s = (ends_with_slash s \<and> \<not> ends_with_slash (butlast s))"

fun contains_2F :: "string \<Rightarrow> bool" where
  "contains_2F (a # b # c # rest) =
     ((a = CHR ''%'' \<and> b = CHR ''2'' \<and> c = CHR ''F'') \<or> contains_2F (b # c # rest))"
| "contains_2F s = False"

text \<open>
  The entry reported for the task and the issue at position \<open>k\<close>, and the number an
  issue id stands for.
\<close>

definition matched_at :: "Task list \<Rightarrow> GitlabIssue list \<Rightarrow> nat \<Rightarrow> FreshDataMany" where
  "matched_at tasks issues k =
     \<lparr> taskChanges = (getAddTaskData (issues ! k))\<lparr>issueWasUpdated := True\<rparr>,
       issue = issues ! k,
       task = tasks ! k \<rparr>"

definition issue_number :: "Task \<Rightarrow> int" where
  "issue_number t = (case to_number (issueId t) of NaN \<Rightarrow> 0 | Num n \<Rightarrow> n)"

text \<open>
  The chunks of at most \<open>n\<close> elements a list is cut into, in order.
\<close>

function chunks_of :: "nat \<Rightarrow> 'a list \<Rightarrow> 'a list list" where
  "chunks_of n xs = (if n = 0 \<or> xs = [] then [] else take n xs # chunks_of n (drop n xs))"
  by pat_completeness auto
termination
  by (relation "measure (\<lambda>(n, xs). length xs)") auto

declare chunks_of.simps [simp del]

subsection \<open>Concrete inputs\<close>

text \<open>
  A configuration, an issue with one comment, and an environment whose collaborators
  answer with them; the search of this environment fails with a gateway error.
\<close>

definition cfg_ex :: GitlabCfg where
  "cfg_ex = \<lparr> isSearchIssuesFromGitlab = True, filterUsername = None,
              gitlabBaseUrl = None, project = Some ''grp%2Fproj'' \<rparr>"

definition comment_ex :: "string \<Rightarrow> int \<Rightarrow> GitlabComment" where
  "comment_ex u ms = \<lparr> author = \<lparr> username = u \<rparr>, created_at = Num ms \<rparr>"

definition issue_ex :: GitlabIssue where
  "issue_ex = \<lparr> number = 5, title = ''Fix bug'', updated_at = Num 2000, weight = Some 3,
                comments = [comment_ex ''bob'' 500] \<rparr>"

definition env_ex :: "string env" where
  "env_ex = \<lparr> getGitlabCfgForProject = (\<lambda>p. Inr cfg_ex),
              getById = (\<lambda>n cfg. Inr issue_ex),
              getByIds = (\<lambda>ids cfg. Inr (map (\<lambda>_. issue_ex) ids)),
              searchIssueInProject =
                (\<lambda>s cfg. \<lparr> emitted = [], failed = Some (RemoteError ''502'') \<rparr>),
              getProjectIssues = (\<lambda>n cfg. Inr [issue_ex]),
              GITLAB_BASE_URL = ''https://gitlab.com/'',
              truncate_util = (\<lambda>s. s) \<rparr>"

definition task_ex :: Task where
  "task_ex = \<lparr> projectId = Some ''p'', issueId = Some ''5'',
               issueLastUpdated = Some (Num 1000) \<rparr>"

text \<open>
  The same issue with a comment of another user that is later than the issue's own update
  time, and a task that was synchronised at that update time.
\<close>

definition issue_late :: GitlabIssue where
  "issue_late = issue_ex\<lparr>comments := [comment_ex ''bob'' 2500]\<rparr>"

definition env_late :: "string env" where
  "env_late = env_ex\<lparr> getById := (\<lambda>n cfg. Inr issue_late),
                       getByIds := (\<lambda>ids cfg. Inr (map (\<lambda>_. issue_late) ids)) \<rparr>"

definition task_late :: Task where
  "task_late = task_ex\<lparr>issueLastUpdated := Some (Num 2000)\<rparr>"

text \<open>A list of 130 tasks of one project, with the issue ids 1 to 130.\<close>

definition tasks130 :: "Task list" where
  "tasks130 =
     map (\<lambda>n. \<lparr> projectId = Some ''p'', issueId = Some (nat_to_string n),
                  issueLastUpdated = Some (Num 1000) \<rparr>) [1..<131]"

text \<open>
  An issue updated at 2001-09-09T01:46:40.000Z with a comment of another user one
  millisecond earlier, and a task synchronised at the time of that comment.
\<close>

definition issue_2001 :: GitlabIssue where
  "issue_2001 = issue_ex\<lparr> updated_at := Num 1000000000000,
                           comments := [comment_ex ''bob'' 999999999999] \<rparr>"

definition task_2001 :: Task where
  "task_2001 = task_ex\<lparr>issueLastUpdated := Some (Num 999999999999)\<rparr>"

text \<open>
  A task with issue id 7 that was synchronised after every update of the example issues.
\<close>

definition task_seen :: Task where
  "task_seen = \<lparr> projectId = Some ''p'', issueId = Some ''7'',
                 issueLastUpdated = Some (Num 3000) \<rparr>"

section \<open>Properties\<close>

subsection \<open>The comparator sort permutes\<close>

lemma mset_insert_by: "mset (insert_by cmp a xs) = add_mset a (mset xs)"
  by (induction xs) auto

lemma mset_sort_by: "mset (sort_by cmp xs) = mset xs"
  by (induction xs) (auto simp: sort_by_def mset_insert_by)

lemma set_sort_by: "set (sort_by cmp xs) = set xs"
  using mset_sort_by [of cmp xs] by (metis set_mset_mset)

lemma length_sort_by: "length (sort_by cmp xs) = length xs"
  using mset_sort_by [of cmp xs] by (metis size_mset)

lemma sort_by_Nil: "sort_by cmp [] = []"
  by (simp add: sort_by_def)

lemma sort_by_Cons_ex:
  assumes "xs \<noteq> []"
  obtains x rest where "sort_by cmp xs = x # rest" and "x \<in> set xs"
proof -
  from assms have "length (sort_by cmp xs) \<noteq> 0"
    by (simp add: length_sort_by)
  then obtain x rest where eq: "sort_by cmp xs = x # rest"
    by (cases "sort_by cmp xs") auto
  then have "x \<in> set (sort_by cmp xs)" by simp
  then have "x \<in> set xs" by (simp add: set_sort_by)
  with eq show thesis by (rule that)
qed

subsection \<open>Preconditions\<close>

lemma not_truthy_cases: "\<not> truthy s \<longleftrightarrow> s = None \<or> s = Some []"
  by (cases s) auto

lemma fetchOne_no_projectId:
  "\<not> truthy (projectId t) \<Longrightarrow>
   getFreshDataForIssueTask e t = ([], Inl (Error ''No projectId''))"
  by (auto simp: getFreshDataForIssueTask_def not_truthy_cases)

lemma fetchOne_no_issueId:
  "truthy (projectId t) \<Longrightarrow> \<not> truthy (issueId t) \<Longrightarrow>
   getFreshDataForIssueTask e t = ([], Inl (Error ''No issueId''))"
  by (cases "projectId t") (auto simp: getFreshDataForIssueTask_def)

lemma fetchMany_no_projectId_first:
  assumes "sort_by compare_issueId tasks = t0 # rest" and "\<not> truthy (projectId t0)"
  shows "getFreshDataForIssueTasks e tasks = (t0 # rest, [], Inl (Error ''No projectId''))"
  using assms by (auto simp: getFreshDataForIssueTasks_def not_truthy_cases)

lemma fetchMany_no_projectId:
  assumes "tasks \<noteq> []" and "\<forall>t \<in> set tasks. \<not> truthy (projectId t)"
  shows "snd (getFreshDataForIssueTasks e tasks) = ([], Inl (Error ''No projectId''))"
proof -
  from assms(1) obtain t0 rest
    where eq: "sort_by compare_issueId tasks = t0 # rest" and "t0 \<in> set tasks"
    by (rule sort_by_Cons_ex)
  with assms(2) have "\<not> truthy (projectId t0)" by blast
  then have "getFreshDataForIssueTasks e tasks = (t0 # rest, [], Inl (Error ''No projectId''))"
    using eq by (simp add: fetchMany_no_projectId_first)
  then show ?thesis by simp
qed

text \<open>
  Claim C4. A single-task refresh of a task with no \<open>projectId\<close> (null or empty) fails
  with the error \<open>No projectId\<close>, and one with a \<open>projectId\<close> but no \<open>issueId\<close> fails with
  \<open>No issueId\<close>; a refresh of a non-empty list of tasks none of which has a \<open>projectId\<close>
  (more generally: whose first task after the sort has none) fails with \<open>No projectId\<close>.
  In each case the call log is empty: neither the configuration nor the API was asked.
\<close>

theorem precondition_errors_before_any_call:
  "(\<not> truthy (projectId t) \<longrightarrow>
      getFreshDataForIssueTask e t = ([], Inl (Error ''No projectId'')))
   \<and> (truthy (projectId t) \<and> \<not> truthy (issueId t) \<longrightarrow>
      getFreshDataForIssueTask e t = ([], Inl (Error ''No issueId'')))
   \<and> (tasks \<noteq> [] \<and> (\<forall>t \<in> set tasks. \<not> truthy (projectId t)) \<longrightarrow>
      snd (getFreshDataForIssueTasks e tasks) = ([], Inl (Error ''No projectId'')))
   \<and> (sort_by compare_issueId tasks = t0 # rest \<and> \<not> truthy (projectId t0) \<longrightarrow>
      snd (getFreshDataForIssueTasks e tasks) = ([], Inl (Error ''No projectId'')))"
proof (intro conjI impI)
  assume "\<not> truthy (projectId t)"
  then show "getFreshDataForIssueTask e t = ([], Inl (Error ''No projectId''))"
    by (rule fetchOne_no_projectId)
next
  assume "truthy (projectId t) \<and> \<not> truthy (issueId t)"
  then show "getFreshDataForIssueTask e t = ([], Inl (Error ''No issueId''))"
    by (simp add: fetchOne_no_issueId)
next
  assume "tasks \<noteq> [] \<and> (\<forall>t \<in> set tasks. \<not> truthy (projectId t))"
  then show "snd (getFreshDataForIssueTasks e tasks) = ([], Inl (Error ''No projectId''))"
    by (simp add: fetchMany_no_projectId)
next
  assume "sort_by compare_issueId tasks = t0 # rest \<and> \<not> truthy (projectId t0)"
  then show "snd (getFreshDataForIssueTasks e tasks) = ([], Inl (Error ''No projectId''))"
    by (simp add: fetchMany_no_projectId_first)
qed

theorem precondition_errors_witness:
  "getFreshDataForIssueTask env_ex (task_ex\<lparr>projectId := None\<rparr>)
     = ([], Inl (Error ''No projectId''))
   \<and> getFreshDataForIssueTask env_ex (task_ex\<lparr>issueId := Some []\<rparr>)
     = ([], Inl (Error ''No issueId''))
   \<and> snd (getFreshDataForIssueTasks env_ex
        [task_ex\<lparr>projectId := None\<rparr>, task_ex\<lparr>projectId := Some [], issueId := Some ''7''\<rparr>])
     = ([], Inl (Error ''No projectId''))"
  using
    precondition_errors_before_any_call
      [of "task_ex\<lparr>projectId := None\<rparr>" env_ex
          "[task_ex\<lparr>projectId := None\<rparr>, task_ex\<lparr>projectId := Some [], issueId := Some ''7''\<rparr>]"]
    precondition_errors_before_any_call [of "task_ex\<lparr>issueId := Some []\<rparr>" env_ex "[]"]
  by (simp add: task_ex_def)

subsection \<open>The empty task list\<close>

text \<open>
  Claim C10. On the empty list, \<open>getFreshDataForIssueTasks\<close> does not raise its
  \<open>No projectId\<close> error: the read of \<^verbatim>\<open>tasks[0].projectId\<close> fails first, with a
  \<open>TypeError\<close>, and no collaborator is called.
\<close>

theorem empty_list_type_error:
  "getFreshDataForIssueTasks e [] = ([], [], Inl TypeError)
   \<and> snd (snd (getFreshDataForIssueTasks e [])) \<noteq> Inl (Error ''No projectId'')"
  by (simp add: getFreshDataForIssueTasks_def sort_by_Nil)

subsection \<open>Comments by others\<close>

text \<open>
  Claim C5. A comment of the issue whose author is \<open>filterUsername\<close> is left out of
  \<open>commentsByOthers\<close> exactly when \<open>filterUsername\<close> is longer than one character. With a
  \<open>filterUsername\<close> of length 0 or 1, or none, \<open>commentsByOthers\<close> is the whole list of
  comments; comments of any other author are always kept, and nothing else is added.
\<close>

theorem filterUsername_excludes_iff_longer_than_one:
  "(filterUsername cfg = Some u \<and> c \<in> set (comments i) \<and> username (author c) = u \<longrightarrow>
      (c \<notin> set (commentsByOthers cfg i) \<longleftrightarrow> 1 < length u))
   \<and> (filterUsername cfg = Some u \<and> length u \<le> 1 \<longrightarrow> commentsByOthers cfg i = comments i)
   \<and> (filterUsername cfg = None \<longrightarrow> commentsByOthers cfg i = comments i)
   \<and> (filterUsername cfg = Some u \<and> c \<in> set (comments i) \<and> username (author c) \<noteq> u \<longrightarrow>
      c \<in> set (commentsByOthers cfg i))
   \<and> set (commentsByOthers cfg i) \<subseteq> set (comments i)"
proof (cases "filterUsername cfg")
  case None
  then show ?thesis by (simp add: commentsByOthers_def)
next
  case (Some v)
  show ?thesis
  proof (cases "1 < length v")
    case True
    then have "v \<noteq> []" by auto
    with True Some
    have "commentsByOthers cfg i = filter (\<lambda>c. username (author c) \<noteq> v) (comments i)"
      by (simp add: commentsByOthers_def)
    with True Some show ?thesis by auto
  next
    case False
    with Some have "commentsByOthers cfg i = comments i"
      by (simp add: commentsByOthers_def)
    with False Some show ?thesis by auto
  qed
qed

theorem filterUsername_witness:
  "comment_ex ''me'' 700 \<notin>
     set (commentsByOthers (cfg_ex\<lparr>filterUsername := Some ''me''\<rparr>)
            (issue_ex\<lparr>comments := [comment_ex ''bob'' 500, comment_ex ''me'' 700]\<rparr>))
   \<and> comment_ex ''m'' 700 \<in>
     set (commentsByOthers (cfg_ex\<lparr>filterUsername := Some ''m''\<rparr>)
            (issue_ex\<lparr>comments := [comment_ex ''bob'' 500, comment_ex ''m'' 700]\<rparr>))
   \<and> commentsByOthers (cfg_ex\<lparr>filterUsername := Some []\<rparr>) issue_ex = comments issue_ex"
  using
    filterUsername_excludes_iff_longer_than_one
      [of "cfg_ex\<lparr>filterUsername := Some ''me''\<rparr>" "''me''" "comment_ex ''me'' 700"
          "issue_ex\<lparr>comments := [comment_ex ''bob'' 500, comment_ex ''me'' 700]\<rparr>"]
    filterUsername_excludes_iff_longer_than_one
      [of "cfg_ex\<lparr>filterUsername := Some ''m''\<rparr>" "''m''" "comment_ex ''m'' 700"
          "issue_ex\<lparr>comments := [comment_ex ''bob'' 500, comment_ex ''m'' 700]\<rparr>"]
    filterUsername_excludes_iff_longer_than_one
      [of "cfg_ex\<lparr>filterUsername := Some []\<rparr>" "[]" "comment_ex ''bob'' 500" issue_ex]
  by (simp add: comment_ex_def)

subsection \<open>The payload of a detected change\<close>

lemma changed_payload:
  "(getAddTaskData i)\<lparr>issueWasUpdated := True\<rparr> = spec_taskChanges i"
  by (simp add: getAddTaskData_def spec_taskChanges_def formatIssueTitle_def)

lemma fetchOne_payload:
  assumes "getFreshDataForIssueTask e t = (log, Inr (Some r))"
  shows "taskChanges r = spec_taskChanges (issue r)"
proof -
  from assms obtain p where p: "projectId t = Some p" "p \<noteq> []" "truthy (issueId t)"
    by (cases "projectId t") (auto simp: getFreshDataForIssueTask_def split: if_splits)
  with assms obtain cfg where cfg: "getGitlabCfgForProject e p = Inr cfg"
    by (cases "getGitlabCfgForProject e p") (auto simp: getFreshDataForIssueTask_def)
  with assms p obtain i where i: "getById e (to_number (issueId t)) cfg = Inr i"
    by (cases "getById e (to_number (issueId t)) cfg")
       (auto simp: getFreshDataForIssueTask_def)
  with assms p cfg
  have "r = \<lparr> taskChanges = (getAddTaskData i)\<lparr>issueWasUpdated := True\<rparr>, issue = i,
              issueTitle = formatIssueTitleForSnack e (number i) (title i) \<rparr>"
    by (auto simp: getFreshDataForIssueTask_def split: if_splits)
  then show ?thesis by (simp add: changed_payload)
qed

lemma check_updates_done:
  "\<not> i < length tasks \<Longrightarrow> check_updates cfg tasks issues i acc = Inr acc"
  by (subst check_updates.simps) simp

lemma check_updates_short:
  "i < length tasks \<Longrightarrow> \<not> i < length issues \<Longrightarrow>
   check_updates cfg tasks issues i acc = Inl TypeError"
  by (subst check_updates.simps) simp

lemma check_updates_step:
  "i < length tasks \<Longrightarrow> i < length issues \<Longrightarrow>
   check_updates cfg tasks issues i acc =
     check_updates cfg tasks issues (i + 1)
       (if wasUpdated cfg (issues ! i) (tasks ! i)
        then acc @ [\<lparr> taskChanges = (getAddTaskData (issues ! i))\<lparr>issueWasUpdated := True\<rparr>,
                      issue = issues ! i, task = tasks ! i \<rparr>]
        else acc)"
  by (subst check_updates.simps) simp

lemma ball_snoc_if:
  "\<forall>r \<in> set acc. P r \<Longrightarrow> P x \<Longrightarrow> \<forall>r \<in> set (if b then acc @ [x] else acc). P r"
  by simp

lemma check_updates_payload:
  "check_updates cfg tasks issues i acc = Inr rs \<Longrightarrow>
   \<forall>r \<in> set acc. taskChanges r = spec_taskChanges (issue r) \<Longrightarrow>
   \<forall>r \<in> set rs. taskChanges r = spec_taskChanges (issue r)"
proof (induction cfg tasks issues i acc rule: check_updates.induct)
  case (1 cfg tasks issues i acc)
  show ?case
  proof (cases "i < length tasks")
    case False
    with "1.prems" show ?thesis
      by (simp add: check_updates_done)
  next
    case True
    have lt: "i < length issues"
    proof (rule ccontr)
      assume "\<not> i < length issues"
      with True have "check_updates cfg tasks issues i acc = Inl TypeError"
        by (rule check_updates_short)
      with "1.prems"(1) show False by simp
    qed
    let ?new = "\<lparr> taskChanges = (getAddTaskData (issues ! i))\<lparr>issueWasUpdated := True\<rparr>,
                  issue = issues ! i, task = tasks ! i \<rparr>"
    let ?acc' = "if wasUpdated cfg (issues ! i) (tasks ! i) then acc @ [?new] else acc"
    have step: "check_updates cfg tasks issues (i + 1) ?acc' = Inr rs"
      using check_updates_step [OF True lt, of cfg acc] "1.prems"(1) by (rule subst)
    have new: "taskChanges ?new = spec_taskChanges (issue ?new)"
      by (simp add: changed_payload)
    from "1.prems"(2) new
    have "\<forall>r \<in> set ?acc'. taskChanges r = spec_taskChanges (issue r)"
      by (rule ball_snoc_if [where P = "\<lambda>r. taskChanges r = spec_taskChanges (issue r)"])
    from "1.IH" [OF True lt step this] show ?thesis .
  qed
qed

lemma fetchMany_success:
  assumes "getFreshDataForIssueTasks e ts = (ts', log, Inr rs)"
  obtains t0 rest p cfg issues where
    "ts' = sort_by compare_issueId ts" and "ts' = t0 # rest" and
    "projectId t0 = Some p" and "p \<noteq> []" and
    "getGitlabCfgForProject e p = Inr cfg" and
    "fetch_issues e cfg ts' 0 [] [GetGitlabCfgForProject p] = (log, Inr issues)" and
    "check_updates cfg ts' issues 0 [] = Inr rs"
proof (cases "sort_by compare_issueId ts")
  case Nil
  with assms show thesis
    by (simp add: getFreshDataForIssueTasks_def Let_def)
next
  case (Cons t0 rest)
  note sorted = this
  show thesis
  proof (cases "projectId t0")
    case None
    with assms sorted show thesis
      by (simp add: getFreshDataForIssueTasks_def Let_def)
  next
    case (Some p)
    note proj = this
    show thesis
    proof (cases "p = []")
      case True
      with assms sorted proj show thesis
        by (simp add: getFreshDataForIssueTasks_def Let_def)
    next
      case False
      note nonempty = this
      show thesis
      proof (cases "getGitlabCfgForProject e p")
        case (Inl err)
        with assms sorted proj nonempty show thesis
          by (simp add: getFreshDataForIssueTasks_def Let_def)
      next
        case (Inr cfg)
        note cfg = this
        obtain log' res where
          fetched: "fetch_issues e cfg (t0 # rest) 0 [] [GetGitlabCfgForProject p] = (log', res)"
          by (cases "fetch_issues e cfg (t0 # rest) 0 [] [GetGitlabCfgForProject p]")
        show thesis
        proof (cases res)
          case (Inl err)
          with assms sorted proj nonempty cfg fetched show thesis
            by (simp add: getFreshDataForIssueTasks_def Let_def)
        next
          case (Inr issues)
          with assms sorted proj nonempty cfg fetched
          have "ts' = t0 # rest" "log = log'" "check_updates cfg (t0 # rest) issues 0 [] = Inr rs"
            by (auto simp: getFreshDataForIssueTasks_def Let_def)
          with sorted proj nonempty cfg fetched Inr show thesis
            by (intro that [of t0 rest p cfg issues]) simp_all
        qed
      qed
    qed
  qed
qed

lemma fetchMany_payload:
  assumes "getFreshDataForIssueTasks e ts = (ts', log, Inr rs)"
  shows "\<forall>r \<in> set rs. taskChanges r = spec_taskChanges (issue r)"
proof -
  from assms obtain cfg issues where "check_updates cfg ts' issues 0 [] = Inr rs"
    by (rule fetchMany_success)
  from check_updates_payload [OF this] show ?thesis by simp
qed

lemma fetchMany_late:
  "getFreshDataForIssueTasks env_late [task_late] =
     ([task_late], [GetGitlabCfgForProject ''p'', GetByIds [Some ''5''] cfg_ex],
      Inr [\<lparr> taskChanges = (getAddTaskData issue_late)\<lparr>issueWasUpdated := True\<rparr>,
             issue = issue_late, task = task_late \<rparr>])"
  by code_simp

subsection \<open>Issue links\<close>

lemma contains_2F_Cons_other:
  assumes "a \<noteq> CHR ''%''"
  shows "contains_2F (a # xs) = contains_2F xs"
proof (cases xs)
  case Nil
  then show ?thesis by simp
next
  case (Cons b ys)
  with assms show ?thesis by (cases ys) simp_all
qed

lemma replace_2F_Cons_other:
  assumes "a \<noteq> CHR ''%''"
  shows "replace_2F (a # xs) = a # replace_2F xs"
proof (cases xs)
  case Nil
  then show ?thesis by simp
next
  case (Cons b ys)
  with assms show ?thesis by (cases ys) simp_all
qed

lemma replace_2F_head:
  assumes "replace_2F (x # xs) = y # ys"
  shows "y = x \<or> (x = CHR ''%'' \<and> y = CHR ''/'')"
proof (cases "x = CHR ''%''")
  case False
  with assms show ?thesis by (simp add: replace_2F_Cons_other)
next
  case True
  show ?thesis
  proof (cases xs)
    case Nil
    with assms show ?thesis by simp
  next
    case (Cons b zs)
    with assms show ?thesis by (cases zs) (auto split: if_splits)
  qed
qed

lemma replace_2F_no_2F: "\<not> contains_2F (replace_2F s)"
proof (induction s rule: replace_2F.induct)
  case (1 a b c rest)
  show ?case
  proof (cases "a = CHR ''%'' \<and> b = CHR ''2'' \<and> c = CHR ''F''")
    case True
    with 1 show ?thesis by (simp add: contains_2F_Cons_other)
  next
    case False
    with 1 have IH: "\<not> contains_2F (replace_2F (b # c # rest))" by simp
    from False have eq: "replace_2F (a # b # c # rest) = a # replace_2F (b # c # rest)" by simp
    show ?thesis
    proof (cases "a = CHR ''%''")
      case False
      with eq IH show ?thesis by (simp add: contains_2F_Cons_other)
    next
      case True
      with \<open>\<not> (a = CHR ''%'' \<and> b = CHR ''2'' \<and> c = CHR ''F'')\<close>
      have nm: "\<not> (b = CHR ''2'' \<and> c = CHR ''F'')" by simp
      have no_prefix: "\<not> (\<exists>zs. replace_2F (b # c # rest) = CHR ''2'' # CHR ''F'' # zs)"
      proof
        assume "\<exists>zs. replace_2F (b # c # rest) = CHR ''2'' # CHR ''F'' # zs"
        then obtain zs where zs: "replace_2F (b # c # rest) = CHR ''2'' # CHR ''F'' # zs" ..
        from replace_2F_head [OF zs] have b: "b = CHR ''2''" by auto
        then have "replace_2F (b # c # rest) = b # replace_2F (c # rest)"
          by (simp add: replace_2F_Cons_other)
        with zs have "replace_2F (c # rest) = CHR ''F'' # zs" by simp
        from replace_2F_head [OF this] have "c = CHR ''F''" by auto
        with b nm show False by simp
      qed
      show ?thesis
      proof (cases "replace_2F (b # c # rest)")
        case Nil
        with eq show ?thesis by simp
      next
        case (Cons y1 ys1)
        note outer = this
        show ?thesis
        proof (cases ys1)
          case Nil
          with outer eq show ?thesis by simp
        next
          case (Cons y2 ys2)
          with outer no_prefix have "\<not> (y1 = CHR ''2'' \<and> y2 = CHR ''F'')" by auto
          moreover from IH outer Cons have "\<not> contains_2F (y1 # y2 # ys2)" by simp
          ultimately show ?thesis using eq outer Cons by simp
        qed
      qed
    qed
  qed
qed simp_all

lemma fixedUrl_ends_with_slash: "ends_with_slash (fixedUrl b)"
  by (simp add: fixedUrl_def ends_with_slash_def)

lemma fixedUrl_added_slash:
  "\<not> ends_with_slash b \<Longrightarrow> exactly_one_trailing_slash (fixedUrl b)"
  by (auto simp: fixedUrl_def exactly_one_trailing_slash_def ends_with_slash_def)

lemma issueLink_custom_base:
  assumes "gitlabBaseUrl cfg = Some b" and "b \<noteq> []"
  shows "issueLink_of_cfg base cfg n =
           fixedUrl b @ (case project cfg of None \<Rightarrow> ''null'' | Some p \<Rightarrow> p)
             @ ''/issues/'' @ ToString n"
  using assms by (simp add: issueLink_of_cfg_def)

lemma issueLink_default_host:
  assumes "\<not> truthy (gitlabBaseUrl cfg)"
  shows "issueLink_of_cfg base cfg n =
           base @ (case project cfg of None \<Rightarrow> ''undefined'' | Some p \<Rightarrow> replace_2F p)
             @ ''/issues/'' @ ToString n"
  using assms by (cases "gitlabBaseUrl cfg") (simp_all add: issueLink_of_cfg_def)

text \<open>
  Claim C6, as the code has it. With a custom base URL the link is the base, one slash
  added exactly when the base does not end with one already (then the result has exactly
  one; slashes the base already ends with are all kept), then the project as configured
  (not decoded), \<open>/issues/\<close> and the issue id. Without a custom base URL it is
  \<open>GITLAB_BASE_URL\<close>, the project with every \<open>%2F\<close> replaced by a slash (no \<open>%2F\<close>
  is left in it), \<open>/issues/\<close> and the issue id.
\<close>

theorem issueLink_adds_missing_slash:
  "(gitlabBaseUrl cfg = Some b \<and> b \<noteq> [] \<longrightarrow>
      issueLink_of_cfg base cfg n =
        fixedUrl b @ (case project cfg of None \<Rightarrow> ''null'' | Some p \<Rightarrow> p)
          @ ''/issues/'' @ ToString n
      \<and> ends_with_slash (fixedUrl b)
      \<and> (ends_with_slash b \<longrightarrow> fixedUrl b = b)
      \<and> (\<not> ends_with_slash b \<longrightarrow>
           fixedUrl b = b @ ''/'' \<and> exactly_one_trailing_slash (fixedUrl b)))
   \<and> (\<not> truthy (gitlabBaseUrl cfg) \<longrightarrow>
      issueLink_of_cfg base cfg n =
        base @ (case project cfg of None \<Rightarrow> ''undefined'' | Some p \<Rightarrow> replace_2F p)
          @ ''/issues/'' @ ToString n)
   \<and> \<not> contains_2F (replace_2F q)
   \<and> (getGitlabCfgForProject e pid = Inr cfg \<longrightarrow>
      issueLink e n pid =
        ([GetGitlabCfgForProject pid], Inr (issueLink_of_cfg (GITLAB_BASE_URL e) cfg n)))"
proof (intro conjI)
  show "gitlabBaseUrl cfg = Some b \<and> b \<noteq> [] \<longrightarrow>
      issueLink_of_cfg base cfg n =
        fixedUrl b @ (case project cfg of None \<Rightarrow> ''null'' | Some p \<Rightarrow> p)
          @ ''/issues/'' @ ToString n
      \<and> ends_with_slash (fixedUrl b)
      \<and> (ends_with_slash b \<longrightarrow> fixedUrl b = b)
      \<and> (\<not> ends_with_slash b \<longrightarrow>
           fixedUrl b = b @ ''/'' \<and> exactly_one_trailing_slash (fixedUrl b))"
  proof
    assume "gitlabBaseUrl cfg = Some b \<and> b \<noteq> []"
    then have "issueLink_of_cfg base cfg n =
        fixedUrl b @ (case project cfg of None \<Rightarrow> ''null'' | Some p \<Rightarrow> p)
          @ ''/issues/'' @ ToString n"
      by (simp add: issueLink_custom_base)
    moreover have "ends_with_slash (fixedUrl b)"
      by (rule fixedUrl_ends_with_slash)
    moreover have "ends_with_slash b \<longrightarrow> fixedUrl b = b"
      by (simp add: fixedUrl_def)
    moreover have "\<not> ends_with_slash b \<longrightarrow>
           fixedUrl b = b @ ''/'' \<and> exactly_one_trailing_slash (fixedUrl b)"
      by (simp add: fixedUrl_added_slash) (simp add: fixedUrl_def)
    ultimately show "issueLink_of_cfg base cfg n =
        fixedUrl b @ (case project cfg of None \<Rightarrow> ''null'' | Some p \<Rightarrow> p)
          @ ''/issues/'' @ ToString n
      \<and> ends_with_slash (fixedUrl b)
      \<and> (ends_with_slash b \<longrightarrow> fixedUrl b = b)
      \<and> (\<not> ends_with_slash b \<longrightarrow>
           fixedUrl b = b @ ''/'' \<and> exactly_one_trailing_slash (fixedUrl b))"
      by blast
  qed
next
  show "\<not> truthy (gitlabBaseUrl cfg) \<longrightarrow>
      issueLink_of_cfg base cfg n =
        base @ (case project cfg of None \<Rightarrow> ''undefined'' | Some p \<Rightarrow> replace_2F p)
          @ ''/issues/'' @ ToString n"
    by (simp add: issueLink_default_host)
next
  show "\<not> contains_2F (replace_2F q)"
    by (rule replace_2F_no_2F)
next
  show "getGitlabCfgForProject e pid = Inr cfg \<longrightarrow>
      issueLink e n pid =
        ([GetGitlabCfgForProject pid], Inr (issueLink_of_cfg (GITLAB_BASE_URL e) cfg n))"
    by (simp add: issueLink_def)
qed

lemma five_as_string: "ToString (Num 5) = ''5''"
  by code_simp

theorem issueLink_witness:
  "issueLink_of_cfg ''https://gitlab.com/''
     (cfg_ex\<lparr>gitlabBaseUrl := Some ''https://git.example.com'', project := Some ''grp%2Fproj''\<rparr>)
     (Num 5)
     = ''https://git.example.com/grp%2Fproj/issues/5''
   \<and> issueLink_of_cfg ''https://gitlab.com/''
     (cfg_ex\<lparr>gitlabBaseUrl := Some ''https://git.example.com/'', project := Some ''grp/proj''\<rparr>)
     (Num 5)
     = ''https://git.example.com/grp/proj/issues/5''
   \<and> issueLink env_ex (Num 5) ''p''
     = ([GetGitlabCfgForProject ''p''], Inr ''https://gitlab.com/grp/proj/issues/5'')"
  using
    issueLink_adds_missing_slash
      [of "cfg_ex\<lparr>gitlabBaseUrl := Some ''https://git.example.com'', project := Some ''grp%2Fproj''\<rparr>"
          "''https://git.example.com''" "''https://gitlab.com/''" "Num 5" "[]" env_ex "''p''"]
    issueLink_adds_missing_slash
      [of "cfg_ex\<lparr>gitlabBaseUrl := Some ''https://git.example.com/'', project := Some ''grp/proj''\<rparr>"
          "''https://git.example.com/''" "''https://gitlab.com/''" "Num 5" "[]" env_ex "''p''"]
    issueLink_adds_missing_slash
      [of cfg_ex "[]" "''https://gitlab.com/''" "Num 5" "[]" env_ex "''p''"]
    five_as_string
  by (simp add: cfg_ex_def env_ex_def ends_with_slash_def fixedUrl_def)

text \<open>
  Claim C6 as stated fails: a base URL that ends with two slashes is left as it is, so two
  slashes stand between the base and the project path.
\<close>

theorem issueLink_two_slashes_counterexample:
  "issueLink
     (env_ex\<lparr>getGitlabCfgForProject :=
        (\<lambda>p. Inr (cfg_ex\<lparr>gitlabBaseUrl := Some ''https://git.example.com//'',
                           project := Some ''grp/proj''\<rparr>))\<rparr>)
     (Num 5) ''p''
     = ([GetGitlabCfgForProject ''p''], Inr ''https://git.example.com//grp/proj/issues/5'')
   \<and> \<not> exactly_one_trailing_slash (fixedUrl ''https://git.example.com//'')"
  using five_as_string
  by (simp add: issueLink_def issueLink_of_cfg_def cfg_ex_def env_ex_def fixedUrl_def
        ends_with_slash_def exactly_one_trailing_slash_def)

subsection \<open>Search\<close>

text \<open>
  What \<open>searchIssues$\<close> gives once the configuration is read: the empty list when the
  search is not permitted; otherwise one call of the API, whose values are passed on and
  whose error is dropped without a value in its place.
\<close>

lemma search_result:
  "(getGitlabCfgForProject e p = Inr cfg \<and> \<not> isSearchIssuesFromGitlab cfg \<longrightarrow>
      searchIssues e searchTerm p = ([GetGitlabCfgForProject p], of_obs []))
   \<and> (getGitlabCfgForProject e p = Inr cfg \<and> isSearchIssuesFromGitlab cfg \<longrightarrow>
      fst (searchIssues e searchTerm p)
        = [GetGitlabCfgForProject p, SearchIssueInProject searchTerm cfg]
      \<and> failed (snd (searchIssues e searchTerm p)) = None
      \<and> emitted (snd (searchIssues e searchTerm p))
        = emitted (searchIssueInProject e searchTerm cfg))
   \<and> (getGitlabCfgForProject e p = Inr cfg \<and> isSearchIssuesFromGitlab cfg
        \<and> searchIssueInProject e searchTerm cfg = \<lparr> emitted = [], failed = Some err \<rparr> \<longrightarrow>
      snd (searchIssues e searchTerm p) = \<lparr> emitted = [], failed = None \<rparr>)"
proof (intro conjI impI)
  assume "getGitlabCfgForProject e p = Inr cfg \<and> \<not> isSearchIssuesFromGitlab cfg"
  then show "searchIssues e searchTerm p = ([GetGitlabCfgForProject p], of_obs [])"
    by (simp add: searchIssues_def)
next
  assume a: "getGitlabCfgForProject e p = Inr cfg \<and> isSearchIssuesFromGitlab cfg"
  then show "fst (searchIssues e searchTerm p)
        = [GetGitlabCfgForProject p, SearchIssueInProject searchTerm cfg]"
    by (simp add: searchIssues_def)
  from a show "failed (snd (searchIssues e searchTerm p)) = None"
    by (cases "failed (searchIssueInProject e searchTerm cfg)")
       (simp_all add: searchIssues_def catchError_def from_array_def)
  from a show "emitted (snd (searchIssues e searchTerm p))
        = emitted (searchIssueInProject e searchTerm cfg)"
    by (cases "failed (searchIssueInProject e searchTerm cfg)")
       (simp_all add: searchIssues_def catchError_def from_array_def)
next
  assume "getGitlabCfgForProject e p = Inr cfg \<and> isSearchIssuesFromGitlab cfg
        \<and> searchIssueInProject e searchTerm cfg = \<lparr> emitted = [], failed = Some err \<rparr>"
  then show "snd (searchIssues e searchTerm p) = \<lparr> emitted = [], failed = None \<rparr>"
    by (simp add: searchIssues_def catchError_def from_array_def)
qed

subsection \<open>New issues for the backlog\<close>

text \<open>
  Claim C9. The result of \<open>getNewIssuesToAddToBacklog\<close> does not depend on the list of
  existing ids: once the configuration is read, it is page 1 of the project's issues.
\<close>

theorem backlog_ignores_existing_ids:
  "getNewIssuesToAddToBacklog e p ids1 = getNewIssuesToAddToBacklog e p ids2
   \<and> (getGitlabCfgForProject e p = Inr cfg \<longrightarrow>
      getNewIssuesToAddToBacklog e p ids1 =
        ([GetGitlabCfgForProject p, GetProjectIssues 1 cfg], getProjectIssues e 1 cfg))"
  by (simp add: getNewIssuesToAddToBacklog_def)

theorem backlog_witness:
  "getNewIssuesToAddToBacklog env_ex ''p'' [1 :: int, 2]
     = getNewIssuesToAddToBacklog env_ex ''p'' [''5'', ''7'']
   \<and> getNewIssuesToAddToBacklog env_ex ''p'' [1 :: int, 2]
     = ([GetGitlabCfgForProject ''p'', GetProjectIssues 1 cfg_ex], Inr [issue_ex])"
proof -
  have cfg: "getGitlabCfgForProject env_ex ''p'' = Inr cfg_ex"
    by (simp add: env_ex_def)
  have page: "getProjectIssues env_ex 1 cfg_ex = Inr [issue_ex]"
    by (simp add: env_ex_def)
  from backlog_ignores_existing_ids [of env_ex "''p''" "[1 :: int, 2]" "[''5'', ''7'']" cfg_ex]
    cfg page
  show ?thesis by auto
qed

subsection \<open>The loops of the list refresh in closed form\<close>

lemma collect_ids_closed:
  "collect_ids tasks i j ids =
     (ids @ map issueId (take (paramsCount - j) (drop i tasks)),
      min (i + (paramsCount - j)) (max i (length tasks)))"
proof (induction tasks i j ids rule: collect_ids.induct)
  case (1 tasks i j ids)
  show ?case
  proof (cases "j < paramsCount \<and> i < length tasks")
    case True
    then have j: "paramsCount - j = Suc (paramsCount - (j + 1))" by arith
    from True have d: "drop i tasks = tasks ! i # drop (i + 1) tasks"
      by (simp add: Cons_nth_drop_Suc)
    have "collect_ids tasks i j ids
            = collect_ids tasks (i + 1) (j + 1) (ids @ [issueId (tasks ! i)])"
      using True by (subst collect_ids.simps) simp
    also have "\<dots> = ((ids @ [issueId (tasks ! i)])
                       @ map issueId (take (paramsCount - (j + 1)) (drop (i + 1) tasks)),
                     min (i + 1 + (paramsCount - (j + 1))) (max (i + 1) (length tasks)))"
      using True by (rule "1.IH")
    also have "\<dots> = (ids @ map issueId (take (paramsCount - j) (drop i tasks)),
                     min (i + (paramsCount - j)) (max i (length tasks)))"
      using True by (simp add: j d)
    finally show ?thesis .
  next
    case False
    then have "collect_ids tasks i j ids = (ids, i)"
      by (subst collect_ids.simps) auto
    moreover from False have "take (paramsCount - j) (drop i tasks) = []" by auto
    moreover from False have "min (i + (paramsCount - j)) (max i (length tasks)) = i" by auto
    ultimately show ?thesis by simp
  qed
qed

lemma fetch_issues_done:
  "\<not> i < length tasks \<Longrightarrow> fetch_issues e cfg tasks i issues log = (log, Inr issues)"
  by (subst fetch_issues.simps) simp

lemma fetch_issues_step:
  assumes "i < length tasks"
    and "getByIds e (map issueId (take paramsCount (drop i tasks))) cfg = Inr fetched"
  shows "fetch_issues e cfg tasks i issues log =
           fetch_issues e cfg tasks (min (i + paramsCount) (length tasks)) (issues @ fetched)
             (log @ [GetByIds (map issueId (take paramsCount (drop i tasks))) cfg])"
  using assms by (subst fetch_issues.simps) (simp add: collect_ids_closed max_absorb2)

lemma fetch_issues_fail:
  assumes "i < length tasks"
    and "getByIds e (map issueId (take paramsCount (drop i tasks))) cfg = Inl err"
  shows "fetch_issues e cfg tasks i issues log =
           (log @ [GetByIds (map issueId (take paramsCount (drop i tasks))) cfg], Inl err)"
  using assms by (subst fetch_issues.simps) (simp add: collect_ids_closed)

lemma check_updates_step_at:
  "i < length tasks \<Longrightarrow> i < length issues \<Longrightarrow>
   check_updates cfg tasks issues i acc =
     check_updates cfg tasks issues (i + 1)
       (if wasUpdated cfg (issues ! i) (tasks ! i) then acc @ [matched_at tasks issues i] else acc)"
  by (simp add: check_updates_step matched_at_def)

lemma check_updates_closed:
  "i \<le> length tasks \<Longrightarrow> length tasks \<le> length issues \<Longrightarrow>
   check_updates cfg tasks issues i acc =
     Inr (acc @ map (matched_at tasks issues)
                  (filter (\<lambda>k. wasUpdated cfg (issues ! k) (tasks ! k)) [i..<length tasks]))"
proof (induction cfg tasks issues i acc rule: check_updates.induct)
  case (1 cfg tasks issues i acc)
  show ?case
  proof (cases "i < length tasks")
    case False
    with "1.prems" show ?thesis by (simp add: check_updates_done)
  next
    case True
    with "1.prems" have lt: "i < length issues" by simp
    from True have upt: "[i..<length tasks] = i # [i + 1..<length tasks]"
      by (simp add: upt_conv_Cons)
    from True have le: "i + 1 \<le> length tasks" by simp
    have "check_updates cfg tasks issues i acc =
          check_updates cfg tasks issues (i + 1)
            (if wasUpdated cfg (issues ! i) (tasks ! i)
             then acc @ [\<lparr> taskChanges = (getAddTaskData (issues ! i))\<lparr>issueWasUpdated := True\<rparr>,
                           issue = issues ! i, task = tasks ! i \<rparr>]
             else acc)"
      using True lt by (rule check_updates_step)
    also have "\<dots> = Inr ((if wasUpdated cfg (issues ! i) (tasks ! i)
             then acc @ [\<lparr> taskChanges = (getAddTaskData (issues ! i))\<lparr>issueWasUpdated := True\<rparr>,
                           issue = issues ! i, task = tasks ! i \<rparr>]
             else acc) @ map (matched_at tasks issues)
                  (filter (\<lambda>k. wasUpdated cfg (issues ! k) (tasks ! k)) [i + 1..<length tasks]))"
      using True lt le "1.prems"(2) by (rule "1.IH")
    also have "\<dots> = Inr (acc @ map (matched_at tasks issues)
                  (filter (\<lambda>k. wasUpdated cfg (issues ! k) (tasks ! k)) [i..<length tasks]))"
      by (simp add: upt matched_at_def)
    finally show ?thesis .
  qed
qed

lemma check_updates_too_few:
  "length issues < length tasks \<Longrightarrow> i < length tasks \<Longrightarrow>
   check_updates cfg tasks issues i acc = Inl TypeError"
proof (induction cfg tasks issues i acc rule: check_updates.induct)
  case (1 cfg tasks issues i acc)
  show ?case
  proof (cases "i < length issues")
    case False
    with "1.prems" show ?thesis by (simp add: check_updates_short)
  next
    case True
    with "1.prems"(1) have next_lt: "i + 1 < length tasks" by simp
    have "check_updates cfg tasks issues i acc =
          check_updates cfg tasks issues (i + 1)
            (if wasUpdated cfg (issues ! i) (tasks ! i)
             then acc @ [\<lparr> taskChanges = (getAddTaskData (issues ! i))\<lparr>issueWasUpdated := True\<rparr>,
                           issue = issues ! i, task = tasks ! i \<rparr>]
             else acc)"
      using "1.prems"(2) True by (rule check_updates_step)
    also have "\<dots> = Inl TypeError"
      using "1.prems"(2) True "1.prems"(1) next_lt by (rule "1.IH")
    finally show ?thesis .
  qed
qed

subsection \<open>Refreshing 130 tasks\<close>

lemma fetchMany_unfold:
  assumes "sort_by compare_issueId tasks = ts" and "ts = t0 # rest"
    and "projectId t0 = Some p" and "p \<noteq> []"
    and "getGitlabCfgForProject e p = Inr cfg"
    and "fetch_issues e cfg ts 0 [] [GetGitlabCfgForProject p] = (log, Inr issues)"
  shows "getFreshDataForIssueTasks e tasks = (ts, log, check_updates cfg ts issues 0 [])"
  using assms by (simp add: getFreshDataForIssueTasks_def Let_def)

lemma fetch_issues_130:
  assumes len: "length ts = 130"
    and r1: "getByIds e (map issueId (take 59 ts)) cfg = Inr r1"
    and r2: "getByIds e (map issueId (take 59 (drop 59 ts))) cfg = Inr r2"
    and r3: "getByIds e (map issueId (drop 118 ts)) cfg = Inr r3"
  shows "fetch_issues e cfg ts 0 [] log =
           (log @ [GetByIds (map issueId (take 59 ts)) cfg,
                   GetByIds (map issueId (take 59 (drop 59 ts))) cfg,
                   GetByIds (map issueId (drop 118 ts)) cfg],
            Inr (r1 @ r2 @ r3))"
proof -
  have "fetch_issues e cfg ts 0 [] log =
        fetch_issues e cfg ts 59 r1 (log @ [GetByIds (map issueId (take 59 ts)) cfg])"
    using fetch_issues_step [of 0 ts e cfg r1 "[]" log] len r1
    by (simp add: paramsCount_def)
  also have "\<dots> = fetch_issues e cfg ts 118 (r1 @ r2)
        (log @ [GetByIds (map issueId (take 59 ts)) cfg,
                GetByIds (map issueId (take 59 (drop 59 ts))) cfg])"
    using fetch_issues_step
            [of 59 ts e cfg r2 r1 "log @ [GetByIds (map issueId (take 59 ts)) cfg]"] len r2
    by (simp add: paramsCount_def)
  also have "\<dots> = fetch_issues e cfg ts 130 (r1 @ r2 @ r3)
        (log @ [GetByIds (map issueId (take 59 ts)) cfg,
                GetByIds (map issueId (take 59 (drop 59 ts))) cfg,
                GetByIds (map issueId (drop 118 ts)) cfg])"
    using fetch_issues_step
            [of 118 ts e cfg r3 "r1 @ r2"
                "log @ [GetByIds (map issueId (take 59 ts)) cfg,
                        GetByIds (map issueId (take 59 (drop 59 ts))) cfg]"] len r3
    by (simp add: paramsCount_def)
  also have "\<dots> = (log @ [GetByIds (map issueId (take 59 ts)) cfg,
                GetByIds (map issueId (take 59 (drop 59 ts))) cfg,
                GetByIds (map issueId (drop 118 ts)) cfg], Inr (r1 @ r2 @ r3))"
    using len by (simp add: fetch_issues_done)
  finally show ?thesis .
qed

lemma chunks_130:
  assumes "length ts = 130"
  shows "take 59 ts @ take 59 (drop 59 ts) @ drop 118 ts = ts"
proof -
  have "take 59 (drop 59 ts) @ drop 118 ts = drop 59 ts"
    using append_take_drop_id [of 59 "drop 59 ts"] by simp
  then show ?thesis by simp
qed

lemma fetch_130_run:
  assumes "length tasks = 130"
    and "\<forall>t \<in> set tasks. projectId t = Some p" and "p \<noteq> []"
    and "getGitlabCfgForProject e p = Inr cfg"
    and "getByIds e (map issueId (take 59 (sort_by compare_issueId tasks))) cfg = Inr r1"
    and "getByIds e (map issueId (take 59 (drop 59 (sort_by compare_issueId tasks)))) cfg = Inr r2"
    and "getByIds e (map issueId (drop 118 (sort_by compare_issueId tasks))) cfg = Inr r3"
  shows "fst (getFreshDataForIssueTasks e tasks) = sort_by compare_issueId tasks
    \<and> fst (snd (getFreshDataForIssueTasks e tasks)) =
        [GetGitlabCfgForProject p,
         GetByIds (map issueId (take 59 (sort_by compare_issueId tasks))) cfg,
         GetByIds (map issueId (take 59 (drop 59 (sort_by compare_issueId tasks)))) cfg,
         GetByIds (map issueId (drop 118 (sort_by compare_issueId tasks))) cfg]
    \<and> map length [take 59 (sort_by compare_issueId tasks),
                   take 59 (drop 59 (sort_by compare_issueId tasks)),
                   drop 118 (sort_by compare_issueId tasks)] = [59, 59, 12]
    \<and> take 59 (sort_by compare_issueId tasks)
        @ take 59 (drop 59 (sort_by compare_issueId tasks))
        @ drop 118 (sort_by compare_issueId tasks) = sort_by compare_issueId tasks
    \<and> snd (snd (getFreshDataForIssueTasks e tasks)) =
        (if 130 \<le> length (r1 @ r2 @ r3)
         then Inr (map (matched_at (sort_by compare_issueId tasks) (r1 @ r2 @ r3))
                    (filter (\<lambda>k. wasUpdated cfg ((r1 @ r2 @ r3) ! k)
                                   (sort_by compare_issueId tasks ! k))
                       [0..<130]))
         else Inl TypeError)"
proof -
  let ?ts = "sort_by compare_issueId tasks"
  have len: "length ?ts = 130"
    using assms(1) by (simp add: length_sort_by)
  from assms(1) have "tasks \<noteq> []" by auto
  then obtain t0 rest where ts: "?ts = t0 # rest" and "t0 \<in> set tasks"
    by (rule sort_by_Cons_ex)
  with assms(2) have proj: "projectId t0 = Some p" by blast
  have fetched: "fetch_issues e cfg ?ts 0 [] [GetGitlabCfgForProject p] =
           ([GetGitlabCfgForProject p] @
              [GetByIds (map issueId (take 59 ?ts)) cfg,
               GetByIds (map issueId (take 59 (drop 59 ?ts))) cfg,
               GetByIds (map issueId (drop 118 ?ts)) cfg],
            Inr (r1 @ r2 @ r3))"
    using len assms(5-7) by (rule fetch_issues_130)
  have run: "getFreshDataForIssueTasks e tasks =
      (?ts, [GetGitlabCfgForProject p] @
              [GetByIds (map issueId (take 59 ?ts)) cfg,
               GetByIds (map issueId (take 59 (drop 59 ?ts))) cfg,
               GetByIds (map issueId (drop 118 ?ts)) cfg],
       check_updates cfg ?ts (r1 @ r2 @ r3) 0 [])"
    using refl ts proj assms(3) assms(4) fetched by (rule fetchMany_unfold)
  have result: "check_updates cfg ?ts (r1 @ r2 @ r3) 0 [] =
        (if 130 \<le> length (r1 @ r2 @ r3)
         then Inr (map (matched_at ?ts (r1 @ r2 @ r3))
                    (filter (\<lambda>k. wasUpdated cfg ((r1 @ r2 @ r3) ! k) (?ts ! k)) [0..<130]))
         else Inl TypeError)"
  proof (cases "130 \<le> length (r1 @ r2 @ r3)")
    case True
    with len have "length ?ts \<le> length (r1 @ r2 @ r3)" by simp
    from check_updates_closed [OF _ this, of 0 cfg "[]"] True len show ?thesis by simp
  next
    case False
    with len have "length (r1 @ r2 @ r3) < length ?ts" "0 < length ?ts" by simp_all
    from check_updates_too_few [OF this, of cfg "[]"] False show ?thesis by simp
  qed
  have sizes: "map length [take 59 ?ts, take 59 (drop 59 ?ts), drop 118 ?ts] = [59, 59, 12]"
    using len by simp
  have whole: "take 59 ?ts @ take 59 (drop 59 ?ts) @ drop 118 ?ts = ?ts"
    using len by (rule chunks_130)
  from run result sizes whole show ?thesis by simp
qed

subsection \<open>The caller's array\<close>

lemma fetchMany_fst: "fst (getFreshDataForIssueTasks e tasks) = sort_by compare_issueId tasks"
proof (cases "sort_by compare_issueId tasks")
  case Nil
  then show ?thesis by (simp add: getFreshDataForIssueTasks_def)
next
  case (Cons t0 rest)
  then show ?thesis
    by (simp add: getFreshDataForIssueTasks_def Let_def
             split: option.split sum.split prod.split)
qed

lemma set_insert_by: "set (insert_by cmp a xs) = insert a (set xs)"
  using mset_insert_by [of cmp a xs] by (metis set_mset_add_mset_insert set_mset_mset)

lemma comes_after_compare:
  assumes "to_number (issueId a) \<noteq> NaN" and "to_number (issueId b) \<noteq> NaN"
  shows "comes_after (compare_issueId a b) \<longleftrightarrow> issue_number a < issue_number b"
proof -
  from assms obtain x y where "to_number (issueId a) = Num x" "to_number (issueId b) = Num y"
    by (cases "to_number (issueId a)"; cases "to_number (issueId b)") auto
  then show ?thesis by (simp add: compare_issueId_def issue_number_def)
qed

lemma sorted_insert_by:
  assumes "sorted_wrt (\<lambda>x y. issue_number y \<le> issue_number x) xs"
    and "\<forall>t \<in> set (a # xs). to_number (issueId t) \<noteq> NaN"
  shows "sorted_wrt (\<lambda>x y. issue_number y \<le> issue_number x) (insert_by compare_issueId a xs)"
  using assms
proof (induction xs)
  case Nil
  then show ?case by simp
next
  case (Cons b bs)
  show ?case
  proof (cases "comes_after (compare_issueId a b)")
    case True
    with Cons.prems have ab: "issue_number a < issue_number b"
      by (simp add: comes_after_compare)
    from Cons.prems
    have "sorted_wrt (\<lambda>x y. issue_number y \<le> issue_number x) (insert_by compare_issueId a bs)"
      by (intro Cons.IH) simp_all
    with Cons.prems(1) ab True show ?thesis
      by (auto simp: set_insert_by)
  next
    case False
    with Cons.prems have "issue_number b \<le> issue_number a"
      by (simp add: comes_after_compare)
    with Cons.prems(1) False show ?thesis by auto
  qed
qed

lemma sorted_sort_by:
  assumes "\<forall>t \<in> set xs. to_number (issueId t) \<noteq> NaN"
  shows "sorted_wrt (\<lambda>x y. issue_number y \<le> issue_number x) (sort_by compare_issueId xs)"
  using assms
proof (induction xs)
  case Nil
  then show ?case by (simp add: sort_by_def)
next
  case (Cons a xs)
  then have "sorted_wrt (\<lambda>x y. issue_number y \<le> issue_number x) (sort_by compare_issueId xs)"
    by simp
  moreover from Cons.prems
  have "\<forall>t \<in> set (a # sort_by compare_issueId xs). to_number (issueId t) \<noteq> NaN"
    by (simp add: set_sort_by)
  ultimately
  have "sorted_wrt (\<lambda>x y. issue_number y \<le> issue_number x)
          (insert_by compare_issueId a (sort_by compare_issueId xs))"
    by (rule sorted_insert_by)
  then show ?case by (simp add: sort_by_def)
qed

lemma fetchMany_result:
  assumes "getFreshDataForIssueTasks e tasks = (ts', log, Inr rs)"
  obtains cfg issues where
    "length ts' \<le> length issues" and
    "rs = map (matched_at ts' issues)
            (filter (\<lambda>k. wasUpdated cfg (issues ! k) (ts' ! k)) [0..<length ts'])"
proof -
  from assms obtain t0 rest cfg issues where
    ne: "ts' = t0 # rest" and run: "check_updates cfg ts' issues 0 [] = Inr rs"
    by (rule fetchMany_success)
  have le: "length ts' \<le> length issues"
  proof (rule ccontr)
    assume "\<not> length ts' \<le> length issues"
    with ne have "length issues < length ts'" "0 < length ts'" by simp_all
    then have "check_updates cfg ts' issues 0 [] = Inl TypeError"
      by (rule check_updates_too_few)
    with run show False by simp
  qed
  from check_updates_closed [OF _ le, of 0 cfg "[]"] run
  have "rs = map (matched_at ts' issues)
            (filter (\<lambda>k. wasUpdated cfg (issues ! k) (ts' ! k)) [0..<length ts'])"
    by simp
  with le show thesis by (rule that)
qed

lemma fetchMany_result_tasks:
  assumes "getFreshDataForIssueTasks e tasks = (ts', log, Inr rs)"
  shows "\<forall>r \<in> set rs. task r \<in> set tasks"
proof -
  from assms obtain cfg issues where
    rs: "rs = map (matched_at ts' issues)
            (filter (\<lambda>k. wasUpdated cfg (issues ! k) (ts' ! k)) [0..<length ts'])"
    by (rule fetchMany_result)
  from assms have "fst (getFreshDataForIssueTasks e tasks) = ts'" by simp
  then have ts': "ts' = sort_by compare_issueId tasks" by (simp add: fetchMany_fst)
  show ?thesis
  proof
    fix r assume "r \<in> set rs"
    with rs obtain k where "k < length ts'" and "r = matched_at ts' issues k" by auto
    then have "task r \<in> set ts'" by (simp add: matched_at_def)
    with ts' show "task r \<in> set tasks" by (simp add: set_sort_by)
  qed
qed

lemma numeric_ids: "to_number (Some ''5'') = Num 5" "to_number (Some ''7'') = Num 7"
  by code_simp+

lemma two_tasks_sorted:
  "sort_by compare_issueId [task_ex, task_ex\<lparr>issueId := Some ''7''\<rparr>]
     = [task_ex\<lparr>issueId := Some ''7''\<rparr>, task_ex]"
  by (simp add: sort_by_def compare_issueId_def task_ex_def numeric_ids)

text \<open>
  Claim C8 as stated fails: the caller's list is reordered by the call.
\<close>

theorem tasks_reordered_counterexample:
  "fst (getFreshDataForIssueTasks env_ex [task_ex, task_ex\<lparr>issueId := Some ''7''\<rparr>])
     = [task_ex\<lparr>issueId := Some ''7''\<rparr>, task_ex]
   \<and> [task_ex\<lparr>issueId := Some ''7''\<rparr>, task_ex] \<noteq> [task_ex, task_ex\<lparr>issueId := Some ''7''\<rparr>]"
  by (simp add: fetchMany_fst two_tasks_sorted) (simp add: task_ex_def)


subsection \<open>Change detection and the default sort\<close>

lemma updates_ex: "updates cfg_ex issue_ex = [Num 2000, Num 500]"
  by code_simp

lemma spec_latest_ex: "spec_lastRemoteUpdate cfg_ex issue_ex = Num 2000"
  by code_simp

lemma fetchOne_ex:
  "getFreshDataForIssueTask env_ex task_ex
     = ([GetGitlabCfgForProject ''p'', GetById (Num 5) cfg_ex], Inr None)"
  by code_simp

lemma fetchMany_ex: "snd (snd (getFreshDataForIssueTasks env_ex [task_ex])) = Inr []"
  by code_simp

lemma strings_2001:
  "int_to_string 1000000000000 = ''1000000000000''"
  "int_to_string 999999999999 = ''999999999999''"
  by (simp_all add: int_to_string_def nat_to_string.simps digit_char_def)

lemma updates_2001: "updates cfg_ex issue_2001 = [Num 1000000000000, Num 999999999999]"
  by (simp add: updates_def commentsByOthers_def cfg_ex_def comment_ex_def issue_2001_def
        sort_default_def strings_2001)

lemma spec_latest_2001: "spec_lastRemoteUpdate cfg_ex issue_2001 = Num 1000000000000"
  by (simp add: spec_lastRemoteUpdate_def commentsByOthers_def cfg_ex_def comment_ex_def
        issue_2001_def)

text \<open>
  Claim C1 fails on the code: \<^verbatim>\<open>.sort()\<close> with no comparator orders the time stamps as
  strings, so the last element is not the maximum when the numbers differ in their number
  of digits. For the issue updated at 2000 with a comment of another user at 500 and a
  task synchronised at 1000, the sorted candidates are 2000, 500; the maximum 2000 is past
  1000, yet both refresh functions compare 500 with 1000 and report no change. The same
  happens with the times 1000000000000 and 999999999999 (9 September 2001).
\<close>

theorem change_missed_by_default_sort:
  "updates cfg_ex issue_ex = [Num 2000, Num 500]
   \<and> lastRemoteUpdate cfg_ex issue_ex = Num 500
   \<and> spec_lastRemoteUpdate cfg_ex issue_ex = Num 2000
   \<and> spec_wasUpdated cfg_ex issue_ex task_ex
   \<and> \<not> wasUpdated cfg_ex issue_ex task_ex
   \<and> getFreshDataForIssueTask env_ex task_ex
       = ([GetGitlabCfgForProject ''p'', GetById (Num 5) cfg_ex], Inr None)
   \<and> snd (snd (getFreshDataForIssueTasks env_ex [task_ex])) = Inr []
   \<and> lastRemoteUpdate cfg_ex issue_2001 = Num 999999999999
   \<and> spec_wasUpdated cfg_ex issue_2001 task_2001
   \<and> \<not> wasUpdated cfg_ex issue_2001 task_2001"
proof -
  have "lastRemoteUpdate cfg_ex issue_ex = Num 500"
    by (simp add: lastRemoteUpdate_def updates_ex)
  moreover have "spec_wasUpdated cfg_ex issue_ex task_ex"
    by (simp add: spec_wasUpdated_def spec_latest_ex task_ex_def)
  moreover have "\<not> wasUpdated cfg_ex issue_ex task_ex"
    by (simp add: wasUpdated_def lastRemoteUpdate_def updates_ex task_ex_def)
  moreover have "lastRemoteUpdate cfg_ex issue_2001 = Num 999999999999"
    by (simp add: lastRemoteUpdate_def updates_2001)
  moreover have "spec_wasUpdated cfg_ex issue_2001 task_2001"
    by (simp add: spec_wasUpdated_def spec_latest_2001 task_2001_def)
  moreover have "\<not> wasUpdated cfg_ex issue_2001 task_2001"
    by (simp add: wasUpdated_def lastRemoteUpdate_def updates_2001 task_2001_def)
  ultimately show ?thesis
    using updates_ex spec_latest_ex fetchOne_ex fetchMany_ex by (intro conjI)
qed

subsection \<open>Numeric issue ids, the stable order and the chunks\<close>

lemma numeric_id_Num:
  assumes "numeric_id s"
  obtains n where "to_number s = Num n" and "n < 9007199254740992"
  using assms by (cases "to_number s") (simp_all add: numeric_id_def)

lemma numeric_id_not_NaN: "numeric_id s \<Longrightarrow> to_number s \<noteq> NaN"
  by (auto simp: numeric_id_def)

lemma chunks_of_Nil: "chunks_of n [] = []"
  by (subst chunks_of.simps) simp

lemma chunks_of_Cons:
  "0 < n \<Longrightarrow> xs \<noteq> [] \<Longrightarrow> chunks_of n xs = take n xs # chunks_of n (drop n xs)"
  by (subst chunks_of.simps) simp

lemma fetch_issues_chunks:
  assumes "\<forall>c \<in> set (chunks_of paramsCount (map issueId (drop i tasks))).
             getByIds e c cfg = Inr (api c)"
  shows "fetch_issues e cfg tasks i issues log =
           (log @ map (\<lambda>c. GetByIds c cfg) (chunks_of paramsCount (map issueId (drop i tasks))),
            Inr (issues @ concat (map api (chunks_of paramsCount (map issueId (drop i tasks))))))"
  using assms
proof (induction e cfg tasks i issues log rule: fetch_issues.induct)
  case (1 e cfg tasks i issues log)
  show ?case
  proof (cases "i < length tasks")
    case False
    then show ?thesis by (simp add: fetch_issues_done chunks_of_Nil)
  next
    case True
    let ?ids = "map issueId (take paramsCount (drop i tasks))"
    let ?i' = "min (i + paramsCount) (length tasks)"
    from True have ne: "map issueId (drop i tasks) \<noteq> []" by simp
    have pos: "0 < paramsCount" by (simp add: paramsCount_def)
    have dd: "drop paramsCount (map issueId (drop i tasks)) = map issueId (drop ?i' tasks)"
      by (simp add: drop_map min_def add.commute)
    have ch: "chunks_of paramsCount (map issueId (drop i tasks)) =
                ?ids # chunks_of paramsCount (map issueId (drop ?i' tasks))"
      using chunks_of_Cons [OF pos ne] by (simp add: take_map dd)
    with "1.prems" have first: "getByIds e ?ids cfg = Inr (api ?ids)"
      and rest: "\<forall>c \<in> set (chunks_of paramsCount (map issueId (drop ?i' tasks))).
                   getByIds e c cfg = Inr (api c)"
      by simp_all
    have col: "collect_ids tasks i 0 [] = (?ids, ?i')"
      using True by (simp add: collect_ids_closed max_absorb2)
    have "fetch_issues e cfg tasks i issues log =
            fetch_issues e cfg tasks ?i' (issues @ api ?ids) (log @ [GetByIds ?ids cfg])"
      using True first by (rule fetch_issues_step)
    also have "\<dots> =
        ((log @ [GetByIds ?ids cfg])
           @ map (\<lambda>c. GetByIds c cfg) (chunks_of paramsCount (map issueId (drop ?i' tasks))),
         Inr ((issues @ api ?ids)
           @ concat (map api (chunks_of paramsCount (map issueId (drop ?i' tasks))))))"
      using True col [symmetric] first rest by (rule "1.IH")
    also have "\<dots> =
        (log @ map (\<lambda>c. GetByIds c cfg) (chunks_of paramsCount (map issueId (drop i tasks))),
         Inr (issues @ concat (map api (chunks_of paramsCount (map issueId (drop i tasks))))))"
      by (simp add: ch)
    finally show ?thesis .
  qed
qed

lemma comes_after_numeric:
  assumes "numeric_id (issueId a)" and "numeric_id (issueId b)"
  shows "comes_after (compare_issueId a b) \<longleftrightarrow> issue_number a < issue_number b"
  using assms by (intro comes_after_compare numeric_id_not_NaN)

lemma filter_insert_by:
  assumes "\<forall>t \<in> set (a # xs). numeric_id (issueId t)"
  shows "filter (\<lambda>t. issue_number t = v) (insert_by compare_issueId a xs)
           = filter (\<lambda>t. issue_number t = v) (a # xs)"
  using assms
proof (induction xs)
  case Nil
  then show ?case by simp
next
  case (Cons b bs)
  show ?case
  proof (cases "comes_after (compare_issueId a b)")
    case True
    with Cons.prems have "issue_number a < issue_number b"
      by (simp add: comes_after_numeric)
    moreover from Cons.prems
    have "filter (\<lambda>t. issue_number t = v) (insert_by compare_issueId a bs)
            = filter (\<lambda>t. issue_number t = v) (a # bs)"
      by (intro Cons.IH) simp
    ultimately show ?thesis using True by auto
  next
    case False
    then show ?thesis by simp
  qed
qed

lemma filter_sort_by:
  assumes "\<forall>t \<in> set xs. numeric_id (issueId t)"
  shows "filter (\<lambda>t. issue_number t = v) (sort_by compare_issueId xs)
           = filter (\<lambda>t. issue_number t = v) xs"
  using assms
proof (induction xs)
  case Nil
  then show ?case by (simp add: sort_by_def)
next
  case (Cons a xs)
  then have IH: "filter (\<lambda>t. issue_number t = v) (sort_by compare_issueId xs)
           = filter (\<lambda>t. issue_number t = v) xs"
    by simp
  from Cons.prems have "\<forall>t \<in> set (a # sort_by compare_issueId xs). numeric_id (issueId t)"
    by (simp add: set_sort_by)
  then have "filter (\<lambda>t. issue_number t = v)
               (insert_by compare_issueId a (sort_by compare_issueId xs))
             = filter (\<lambda>t. issue_number t = v) (a # sort_by compare_issueId xs)"
    by (rule filter_insert_by)
  with IH show ?case by (simp add: sort_by_def)
qed

lemma sorted_sort_by_numeric:
  assumes "\<forall>t \<in> set xs. numeric_id (issueId t)"
  shows "sorted_wrt (\<lambda>x y. issue_number y \<le> issue_number x) (sort_by compare_issueId xs)"
  using assms by (intro sorted_sort_by) (simp add: numeric_id_not_NaN)

lemma digit_cases:
  assumes "d < (10 :: nat)"
  shows "d = 0 \<or> d = 1 \<or> d = 2 \<or> d = 3 \<or> d = 4 \<or> d = 5 \<or> d = 6 \<or> d = 7 \<or> d = 8 \<or> d = 9"
  using assms by arith

lemma digit_char_digit:
  assumes "d < 10"
  shows "is_digit (digit_char d)" and "digit_val (digit_char d) = int d"
  using digit_cases [OF assms] by (auto simp: digit_char_def is_digit_def digit_val_def)

lemma nat_to_string_small: "n < 10 \<Longrightarrow> nat_to_string n = [digit_char n]"
  by (subst nat_to_string.simps) simp

lemma nat_to_string_large:
  "\<not> n < 10 \<Longrightarrow> nat_to_string n = nat_to_string (n div 10) @ [digit_char (n mod 10)]"
  by (subst nat_to_string.simps) simp

lemma nat_to_string_digits:
  "list_all is_digit (nat_to_string n)
   \<and> foldl (\<lambda>acc c. 10 * acc + digit_val c) 0 (nat_to_string n) = int n"
proof (induction n rule: nat_to_string.induct)
  case (1 n)
  show ?case
  proof (cases "n < 10")
    case True
    then show ?thesis by (simp add: nat_to_string_small digit_char_digit)
  next
    case False
    then have IH: "list_all is_digit (nat_to_string (n div 10))
      \<and> foldl (\<lambda>acc c. 10 * acc + digit_val c) 0 (nat_to_string (n div 10)) = int (n div 10)"
      by (rule "1.IH")
    have "int (n div 10) * 10 + int (n mod 10) = int n"
      by (metis div_mult_mod_eq of_nat_add of_nat_mult of_nat_numeral)
    with IH False show ?thesis
      by (simp add: nat_to_string_large digit_char_digit mult.commute)
  qed
qed

lemma to_number_nat_to_string: "to_number (Some (nat_to_string n)) = Num (int n)"
  using nat_to_string_digits [of n] by (simp add: to_number_def)

lemma numeric_id_nat_to_string:
  "n < 9007199254740992 \<Longrightarrow> numeric_id (Some (nat_to_string n))"
  by (simp add: numeric_id_def to_number_nat_to_string)

subsection \<open>Refreshing 130 tasks: the claim\<close>

text \<open>
  Claim C3. For 130 tasks of one project whose issue ids are numbers, when the
  configuration is read and the three API calls succeed: the caller's list is sorted by
  descending issue number (stably: tasks of equal number keep their order); the call log
  holds, after the configuration read, exactly three \<open>getByIds$\<close> calls, for the first 59,
  the next 59 and the last 12 ids of the sorted list, in that order; and the result pairs
  position \<open>k\<close> of the sorted list with position \<open>k\<close> of the concatenated responses, for
  every \<open>k\<close> below 130, and reports the pairs with a detected change. When fewer than 130
  issues came back, the read of the missing issue fails with a \<open>TypeError\<close>.
\<close>

theorem fetch_130_tasks_in_three_chunks:
  assumes "length tasks = 130"
    and "\<forall>t \<in> set tasks. numeric_id (issueId t)"
    and "\<forall>t \<in> set tasks. projectId t = Some p" and "p \<noteq> []"
    and "getGitlabCfgForProject e p = Inr cfg"
    and "getByIds e (map issueId (take 59 (sort_by compare_issueId tasks))) cfg = Inr r1"
    and "getByIds e (map issueId (take 59 (drop 59 (sort_by compare_issueId tasks)))) cfg = Inr r2"
    and "getByIds e (map issueId (drop 118 (sort_by compare_issueId tasks))) cfg = Inr r3"
  shows "fst (getFreshDataForIssueTasks e tasks) = sort_by compare_issueId tasks
    \<and> sorted_wrt (\<lambda>x y. issue_number y \<le> issue_number x) (sort_by compare_issueId tasks)
    \<and> (\<forall>v. filter (\<lambda>t. issue_number t = v) (sort_by compare_issueId tasks)
              = filter (\<lambda>t. issue_number t = v) tasks)
    \<and> mset (sort_by compare_issueId tasks) = mset tasks
    \<and> fst (snd (getFreshDataForIssueTasks e tasks)) =
        [GetGitlabCfgForProject p,
         GetByIds (map issueId (take 59 (sort_by compare_issueId tasks))) cfg,
         GetByIds (map issueId (take 59 (drop 59 (sort_by compare_issueId tasks)))) cfg,
         GetByIds (map issueId (drop 118 (sort_by compare_issueId tasks))) cfg]
    \<and> map length [take 59 (sort_by compare_issueId tasks),
                   take 59 (drop 59 (sort_by compare_issueId tasks)),
                   drop 118 (sort_by compare_issueId tasks)] = [59, 59, 12]
    \<and> take 59 (sort_by compare_issueId tasks)
        @ take 59 (drop 59 (sort_by compare_issueId tasks))
        @ drop 118 (sort_by compare_issueId tasks) = sort_by compare_issueId tasks
    \<and> snd (snd (getFreshDataForIssueTasks e tasks)) =
        (if 130 \<le> length (r1 @ r2 @ r3)
         then Inr (map (matched_at (sort_by compare_issueId tasks) (r1 @ r2 @ r3))
                    (filter (\<lambda>k. wasUpdated cfg ((r1 @ r2 @ r3) ! k)
                                   (sort_by compare_issueId tasks ! k))
                       [0..<130]))
         else Inl TypeError)"
proof -
  note run = fetch_130_run [OF assms(1) assms(3-8)]
  have ordered: "sorted_wrt (\<lambda>x y. issue_number y \<le> issue_number x)
                   (sort_by compare_issueId tasks)"
    using assms(2) by (rule sorted_sort_by_numeric)
  have stable: "\<forall>v. filter (\<lambda>t. issue_number t = v) (sort_by compare_issueId tasks)
              = filter (\<lambda>t. issue_number t = v) tasks"
    using assms(2) by (simp add: filter_sort_by)
  have same: "mset (sort_by compare_issueId tasks) = mset tasks"
    by (rule mset_sort_by)
  from run ordered stable same show ?thesis by blast
qed

theorem fetch_130_witness:
  "length tasks130 = 130
   \<and> sorted_wrt (\<lambda>x y. issue_number y \<le> issue_number x) (sort_by compare_issueId tasks130)
   \<and> (\<exists>c1 c2 c3.
        fst (snd (getFreshDataForIssueTasks env_ex tasks130)) =
          [GetGitlabCfgForProject ''p'', GetByIds c1 cfg_ex, GetByIds c2 cfg_ex,
           GetByIds c3 cfg_ex]
        \<and> length c1 = 59 \<and> length c2 = 59 \<and> length c3 = 12
        \<and> c1 @ c2 @ c3 = map issueId (sort_by compare_issueId tasks130))"
proof -
  let ?ts = "sort_by compare_issueId tasks130"
  let ?c1 = "map issueId (take 59 ?ts)"
  let ?c2 = "map issueId (take 59 (drop 59 ?ts))"
  let ?c3 = "map issueId (drop 118 ?ts)"
  have len: "length tasks130 = 130"
    by (simp add: tasks130_def)
  have ids: "\<forall>t \<in> set tasks130. numeric_id (issueId t)"
    by (auto simp: tasks130_def intro: numeric_id_nat_to_string)
  have proj: "\<forall>t \<in> set tasks130. projectId t = Some ''p''"
    by (auto simp: tasks130_def)
  have cfg: "getGitlabCfgForProject env_ex ''p'' = Inr cfg_ex"
    by (simp add: env_ex_def)
  have r1: "getByIds env_ex ?c1 cfg_ex = Inr (map (\<lambda>_. issue_ex) ?c1)"
    and r2: "getByIds env_ex ?c2 cfg_ex = Inr (map (\<lambda>_. issue_ex) ?c2)"
    and r3: "getByIds env_ex ?c3 cfg_ex = Inr (map (\<lambda>_. issue_ex) ?c3)"
    by (simp_all add: env_ex_def)
  have nonempty: "''p'' \<noteq> []" by simp
  note main = fetch_130_tasks_in_three_chunks [OF len ids proj nonempty cfg r1 r2 r3]
  from main have ordered: "sorted_wrt (\<lambda>x y. issue_number y \<le> issue_number x) ?ts"
    by blast
  from main have log: "fst (snd (getFreshDataForIssueTasks env_ex tasks130)) =
          [GetGitlabCfgForProject ''p'', GetByIds ?c1 cfg_ex, GetByIds ?c2 cfg_ex,
           GetByIds ?c3 cfg_ex]"
    by blast
  from main have "map length [take 59 ?ts, take 59 (drop 59 ?ts), drop 118 ?ts] = [59, 59, 12]"
    by blast
  then have sizes: "length ?c1 = 59 \<and> length ?c2 = 59 \<and> length ?c3 = 12"
    by simp
  from main have "take 59 ?ts @ take 59 (drop 59 ?ts) @ drop 118 ?ts = ?ts"
    by blast
  then have "map issueId (take 59 ?ts @ take 59 (drop 59 ?ts) @ drop 118 ?ts) = map issueId ?ts"
    by simp
  then have whole: "?c1 @ ?c2 @ ?c3 = map issueId ?ts"
    by simp
  from log sizes whole
  have "fst (snd (getFreshDataForIssueTasks env_ex tasks130)) =
          [GetGitlabCfgForProject ''p'', GetByIds ?c1 cfg_ex, GetByIds ?c2 cfg_ex,
           GetByIds ?c3 cfg_ex]
        \<and> length ?c1 = 59 \<and> length ?c2 = 59 \<and> length ?c3 = 12
        \<and> ?c1 @ ?c2 @ ?c3 = map issueId ?ts"
    by simp
  then have "\<exists>c1 c2 c3.
        fst (snd (getFreshDataForIssueTasks env_ex tasks130)) =
          [GetGitlabCfgForProject ''p'', GetByIds c1 cfg_ex, GetByIds c2 cfg_ex,
           GetByIds c3 cfg_ex]
        \<and> length c1 = 59 \<and> length c2 = 59 \<and> length c3 = 12
        \<and> c1 @ c2 @ c3 = map issueId ?ts"
    by - ((rule exI)+, assumption)
  with len ordered show ?thesis by (intro conjI)
qed

subsection \<open>The caller's array: the claim\<close>

text \<open>
  Claim C8, as the code has it. \<open>getFreshDataForIssueTasks\<close> sorts the caller's array in
  place: whatever the outcome, the array afterwards holds the same tasks, each unchanged.
  When every issue id is a number, it holds them in descending order of the issue number,
  tasks of equal number in their former order (this is the stable sort by the
  comparator). Nothing else is written: the proposed changes are returned, each entry
  referring to one of the caller's tasks.
\<close>

theorem tasks_sorted_in_place:
  "mset (fst (getFreshDataForIssueTasks e tasks)) = mset tasks
   \<and> ((\<forall>t \<in> set tasks. numeric_id (issueId t)) \<longrightarrow>
        fst (getFreshDataForIssueTasks e tasks) = sort_by compare_issueId tasks
        \<and> sorted_wrt (\<lambda>x y. issue_number y \<le> issue_number x)
            (fst (getFreshDataForIssueTasks e tasks))
        \<and> (\<forall>v. filter (\<lambda>t. issue_number t = v) (fst (getFreshDataForIssueTasks e tasks))
                  = filter (\<lambda>t. issue_number t = v) tasks))
   \<and> (getFreshDataForIssueTasks e tasks = (ts', log, Inr rs) \<longrightarrow>
        (\<forall>r \<in> set rs. task r \<in> set tasks))"
proof (intro conjI impI)
  show "mset (fst (getFreshDataForIssueTasks e tasks)) = mset tasks"
    by (simp add: fetchMany_fst mset_sort_by)
next
  assume ids: "\<forall>t \<in> set tasks. numeric_id (issueId t)"
  show "fst (getFreshDataForIssueTasks e tasks) = sort_by compare_issueId tasks"
    by (rule fetchMany_fst)
  from ids show "sorted_wrt (\<lambda>x y. issue_number y \<le> issue_number x)
            (fst (getFreshDataForIssueTasks e tasks))"
    by (simp add: fetchMany_fst sorted_sort_by_numeric)
  from ids show "\<forall>v. filter (\<lambda>t. issue_number t = v) (fst (getFreshDataForIssueTasks e tasks))
                  = filter (\<lambda>t. issue_number t = v) tasks"
    by (simp add: fetchMany_fst filter_sort_by)
next
  assume "getFreshDataForIssueTasks e tasks = (ts', log, Inr rs)"
  then show "\<forall>r \<in> set rs. task r \<in> set tasks"
    by (rule fetchMany_result_tasks)
qed

lemma numeric_ids_5_7: "numeric_id (Some ''5'')" "numeric_id (Some ''7'')"
  by (simp_all add: numeric_id_def numeric_ids)

theorem tasks_sorted_in_place_witness:
  "fst (getFreshDataForIssueTasks env_ex [task_ex, task_ex\<lparr>issueId := Some ''7''\<rparr>])
     = [task_ex\<lparr>issueId := Some ''7''\<rparr>, task_ex]
   \<and> sorted_wrt (\<lambda>x y. issue_number y \<le> issue_number x)
       (fst (getFreshDataForIssueTasks env_ex [task_ex, task_ex\<lparr>issueId := Some ''7''\<rparr>]))
   \<and> (\<exists>r. snd (snd (getFreshDataForIssueTasks env_late [task_late])) = Inr [r]
          \<and> task r \<in> set [task_late])"
proof -
  let ?two = "[task_ex, task_ex\<lparr>issueId := Some ''7''\<rparr>]"
  let ?r = "\<lparr> taskChanges = (getAddTaskData issue_late)\<lparr>issueWasUpdated := True\<rparr>,
              issue = issue_late, task = task_late \<rparr>"
  note two = tasks_sorted_in_place [of env_ex ?two "[]" "[]" "[]"]
  note one = tasks_sorted_in_place
               [of env_late "[task_late]" "[task_late]"
                   "[GetGitlabCfgForProject ''p'', GetByIds [Some ''5''] cfg_ex]" "[?r]"]
  have ids: "\<forall>t \<in> set ?two. numeric_id (issueId t)"
    by (simp add: task_ex_def numeric_ids_5_7)
  from conjunct1 [OF conjunct2 [OF two]] ids
  have sorted: "fst (getFreshDataForIssueTasks env_ex ?two) = sort_by compare_issueId ?two
        \<and> sorted_wrt (\<lambda>x y. issue_number y \<le> issue_number x)
            (fst (getFreshDataForIssueTasks env_ex ?two))
        \<and> (\<forall>v. filter (\<lambda>t. issue_number t = v) (fst (getFreshDataForIssueTasks env_ex ?two))
                  = filter (\<lambda>t. issue_number t = v) ?two)"
    by (rule mp)
  then have first: "fst (getFreshDataForIssueTasks env_ex ?two)
                      = [task_ex\<lparr>issueId := Some ''7''\<rparr>, task_ex]"
    by (simp add: two_tasks_sorted)
  from sorted have second: "sorted_wrt (\<lambda>x y. issue_number y \<le> issue_number x)
       (fst (getFreshDataForIssueTasks env_ex ?two))"
    by (rule conjunct1 [OF conjunct2])
  from conjunct2 [OF conjunct2 [OF one]] fetchMany_late
  have "\<forall>r \<in> set [?r]. task r \<in> set [task_late]"
    by (rule mp)
  then have "task ?r \<in> set [task_late]"
    by simp
  moreover from fetchMany_late
  have "snd (snd (getFreshDataForIssueTasks env_late [task_late])) = Inr [?r]"
    by simp
  ultimately
  have "snd (snd (getFreshDataForIssueTasks env_late [task_late])) = Inr [?r]
          \<and> task ?r \<in> set [task_late]"
    by (rule conjI [rotated])
  then have third: "\<exists>r. snd (snd (getFreshDataForIssueTasks env_late [task_late])) = Inr [r]
          \<and> task r \<in> set [task_late]"
    by - (rule exI, assumption)
  from first second third show ?thesis by (intro conjI)
qed

subsection \<open>The payload of a detected change: the claim\<close>

lemma fetchOne_run:
  assumes "projectId t = Some p" and "p \<noteq> []" and "truthy (issueId t)"
    and "getGitlabCfgForProject e p = Inr cfg"
    and "getById e (to_number (issueId t)) cfg = Inr i"
  shows "getFreshDataForIssueTask e t =
           ([GetGitlabCfgForProject p, GetById (to_number (issueId t)) cfg],
            Inr (if wasUpdated cfg i t
                 then Some \<lparr> taskChanges = spec_taskChanges i, issue = i,
                             issueTitle = truncate_util e (formatIssueTitle (number i) (title i)) \<rparr>
                 else None))"
  using assms
  by (simp add: getFreshDataForIssueTask_def changed_payload formatIssueTitleForSnack_def)

lemma matched_at_spec:
  "matched_at ts issues k =
     \<lparr> taskChanges = spec_taskChanges (issues ! k), issue = issues ! k, task = ts ! k \<rparr>"
  by (simp add: matched_at_def changed_payload)

lemma fetchMany_run:
  assumes ne: "tasks \<noteq> []"
    and proj: "\<forall>t \<in> set tasks. projectId t = Some p" and p: "p \<noteq> []"
    and cfg: "getGitlabCfgForProject e p = Inr cfg"
    and api: "\<forall>c \<in> set (chunks_of 59 (map issueId (sort_by compare_issueId tasks))).
               getByIds e c cfg = Inr (api c)"
    and enough: "length tasks
               \<le> length (concat (map api (chunks_of 59 (map issueId (sort_by compare_issueId tasks)))))"
  shows "snd (getFreshDataForIssueTasks e tasks) =
           (GetGitlabCfgForProject p
              # map (\<lambda>c. GetByIds c cfg)
                  (chunks_of 59 (map issueId (sort_by compare_issueId tasks))),
            Inr (map (\<lambda>k. \<lparr> taskChanges =
                                spec_taskChanges
                                  (concat (map api (chunks_of 59
                                     (map issueId (sort_by compare_issueId tasks)))) ! k),
                              issue = concat (map api (chunks_of 59
                                     (map issueId (sort_by compare_issueId tasks)))) ! k,
                              task = sort_by compare_issueId tasks ! k \<rparr>)
                   (filter (\<lambda>k. wasUpdated cfg
                                  (concat (map api (chunks_of 59
                                     (map issueId (sort_by compare_issueId tasks)))) ! k)
                                  (sort_by compare_issueId tasks ! k))
                      [0..<length tasks])))"
proof -
  let ?ts = "sort_by compare_issueId tasks"
  let ?chunks = "chunks_of 59 (map issueId ?ts)"
  let ?issues = "concat (map api ?chunks)"
  from ne obtain t0 rest where ts: "?ts = t0 # rest" and "t0 \<in> set tasks"
    by (rule sort_by_Cons_ex)
  with proj have t0: "projectId t0 = Some p" by blast
  have len: "length ?ts = length tasks" by (rule length_sort_by)
  from api have "\<forall>c \<in> set (chunks_of paramsCount (map issueId (drop 0 ?ts))).
                   getByIds e c cfg = Inr (api c)"
    by (simp add: paramsCount_def)
  from fetch_issues_chunks [OF this, of "[]" "[GetGitlabCfgForProject p]"]
  have fetched: "fetch_issues e cfg ?ts 0 [] [GetGitlabCfgForProject p] =
                   (GetGitlabCfgForProject p # map (\<lambda>c. GetByIds c cfg) ?chunks, Inr ?issues)"
    by (simp add: paramsCount_def)
  have run: "getFreshDataForIssueTasks e tasks =
               (?ts, GetGitlabCfgForProject p # map (\<lambda>c. GetByIds c cfg) ?chunks,
                check_updates cfg ?ts ?issues 0 [])"
    using refl ts t0 p cfg fetched by (rule fetchMany_unfold)
  from enough len have "length ?ts \<le> length ?issues" by simp
  from check_updates_closed [OF _ this, of 0 cfg "[]"]
  have "check_updates cfg ?ts ?issues 0 [] =
          Inr (map (matched_at ?ts ?issues)
                 (filter (\<lambda>k. wasUpdated cfg (?issues ! k) (?ts ! k)) [0..<length tasks]))"
    by (simp add: len)
  with run show ?thesis by (simp add: matched_at_spec [abs_def])
qed

text \<open>
  Claim C2. A refresh reports a change exactly when the change detection of the code
  (\<open>wasUpdated\<close>) finds one for the issue the API returned, and what it reports is then
  that issue with these \<open>taskChanges\<close>: the title \<open>#<number> <title>\<close>, the issue's weight
  as points, the issue's own \<open>updated_at\<close> time as \<open>issueLastUpdated\<close> (not the latest
  comment time), and \<open>issueWasUpdated\<close> set. For one task (with a project, a numeric
  issue id, and the configuration read and the API call succeeding) the result is that
  entry, or \<open>null\<close> when no change is detected. For a list of tasks of one project with
  numeric ids (the configuration read and every chunk's API call succeeding, with at
  least as many issues as tasks) the result holds, for every position \<open>k\<close> of the sorted
  list with a detected change and only for those, the entry of the \<open>k\<close>-th issue returned
  and the \<open>k\<close>-th task. And whatever the input, every entry either function returns has
  these \<open>taskChanges\<close> for the issue it carries.
\<close>

theorem detected_change_payload:
  "(projectId t = Some p \<and> p \<noteq> [] \<and> truthy (issueId t) \<and> numeric_id (issueId t)
      \<and> getGitlabCfgForProject e p = Inr cfg
      \<and> getById e (to_number (issueId t)) cfg = Inr i \<longrightarrow>
      getFreshDataForIssueTask e t =
        ([GetGitlabCfgForProject p, GetById (to_number (issueId t)) cfg],
         Inr (if wasUpdated cfg i t
              then Some \<lparr> taskChanges =
                            \<lparr> title_chg = ''#'' @ int_to_string (number i) @ '' '' @ title i,
                              issuePoints = weight i,
                              issueWasUpdated = True,
                              issueLastUpdated_chg = updated_at i \<rparr>,
                          issue = i,
                          issueTitle =
                            truncate_util e (''#'' @ int_to_string (number i) @ '' '' @ title i) \<rparr>
              else None)))
   \<and> (tasks \<noteq> [] \<and> (\<forall>t \<in> set tasks. numeric_id (issueId t) \<and> projectId t = Some p)
      \<and> p \<noteq> [] \<and> getGitlabCfgForProject e p = Inr cfg
      \<and> (\<forall>c \<in> set (chunks_of 59 (map issueId (sort_by compare_issueId tasks))).
            getByIds e c cfg = Inr (api c))
      \<and> length tasks
           \<le> length (concat (map api (chunks_of 59 (map issueId (sort_by compare_issueId tasks)))))
      \<longrightarrow>
      (let ts = sort_by compare_issueId tasks;
           issues = concat (map api (chunks_of 59 (map issueId ts)))
       in snd (getFreshDataForIssueTasks e tasks) =
            (GetGitlabCfgForProject p # map (\<lambda>c. GetByIds c cfg) (chunks_of 59 (map issueId ts)),
             Inr (map (\<lambda>k. \<lparr> taskChanges =
                                 \<lparr> title_chg = ''#'' @ int_to_string (number (issues ! k))
                                                @ '' '' @ title (issues ! k),
                                   issuePoints = weight (issues ! k),
                                   issueWasUpdated = True,
                                   issueLastUpdated_chg = updated_at (issues ! k) \<rparr>,
                               issue = issues ! k,
                               task = ts ! k \<rparr>)
                    (filter (\<lambda>k. wasUpdated cfg (issues ! k) (ts ! k)) [0..<length tasks])))))
   \<and> (getFreshDataForIssueTask e t = (log, Inr (Some r)) \<longrightarrow>
      title_chg (taskChanges r) = ''#'' @ int_to_string (number (issue r)) @ '' '' @ title (issue r)
      \<and> issuePoints (taskChanges r) = weight (issue r)
      \<and> issueLastUpdated_chg (taskChanges r) = updated_at (issue r)
      \<and> issueWasUpdated (taskChanges r))
   \<and> (getFreshDataForIssueTasks e tasks = (ts', log', Inr rs) \<longrightarrow>
      (\<forall>r' \<in> set rs.
         title_chg (taskChanges r') = ''#'' @ int_to_string (number (issue r')) @ '' '' @ title (issue r')
         \<and> issuePoints (taskChanges r') = weight (issue r')
         \<and> issueLastUpdated_chg (taskChanges r') = updated_at (issue r')
         \<and> issueWasUpdated (taskChanges r')))"
proof (intro conjI)
  show "projectId t = Some p \<and> p \<noteq> [] \<and> truthy (issueId t) \<and> numeric_id (issueId t)
      \<and> getGitlabCfgForProject e p = Inr cfg
      \<and> getById e (to_number (issueId t)) cfg = Inr i \<longrightarrow>
      getFreshDataForIssueTask e t =
        ([GetGitlabCfgForProject p, GetById (to_number (issueId t)) cfg],
         Inr (if wasUpdated cfg i t
              then Some \<lparr> taskChanges =
                            \<lparr> title_chg = ''#'' @ int_to_string (number i) @ '' '' @ title i,
                              issuePoints = weight i,
                              issueWasUpdated = True,
                              issueLastUpdated_chg = updated_at i \<rparr>,
                          issue = i,
                          issueTitle =
                            truncate_util e (''#'' @ int_to_string (number i) @ '' '' @ title i) \<rparr>
              else None))"
    by (simp add: fetchOne_run spec_taskChanges_def formatIssueTitle_def)
next
  show "tasks \<noteq> [] \<and> (\<forall>t \<in> set tasks. numeric_id (issueId t) \<and> projectId t = Some p)
      \<and> p \<noteq> [] \<and> getGitlabCfgForProject e p = Inr cfg
      \<and> (\<forall>c \<in> set (chunks_of 59 (map issueId (sort_by compare_issueId tasks))).
            getByIds e c cfg = Inr (api c))
      \<and> length tasks
           \<le> length (concat (map api (chunks_of 59 (map issueId (sort_by compare_issueId tasks)))))
      \<longrightarrow>
      (let ts = sort_by compare_issueId tasks;
           issues = concat (map api (chunks_of 59 (map issueId ts)))
       in snd (getFreshDataForIssueTasks e tasks) =
            (GetGitlabCfgForProject p # map (\<lambda>c. GetByIds c cfg) (chunks_of 59 (map issueId ts)),
             Inr (map (\<lambda>k. \<lparr> taskChanges =
                                 \<lparr> title_chg = ''#'' @ int_to_string (number (issues ! k))
                                                @ '' '' @ title (issues ! k),
                                   issuePoints = weight (issues ! k),
                                   issueWasUpdated = True,
                                   issueLastUpdated_chg = updated_at (issues ! k) \<rparr>,
                               issue = issues ! k,
                               task = ts ! k \<rparr>)
                    (filter (\<lambda>k. wasUpdated cfg (issues ! k) (ts ! k)) [0..<length tasks]))))"
  proof
    assume h: "tasks \<noteq> [] \<and> (\<forall>t \<in> set tasks. numeric_id (issueId t) \<and> projectId t = Some p)
      \<and> p \<noteq> [] \<and> getGitlabCfgForProject e p = Inr cfg
      \<and> (\<forall>c \<in> set (chunks_of 59 (map issueId (sort_by compare_issueId tasks))).
            getByIds e c cfg = Inr (api c))
      \<and> length tasks
           \<le> length (concat (map api (chunks_of 59 (map issueId (sort_by compare_issueId tasks)))))"
    then have ne: "tasks \<noteq> []" and proj: "\<forall>t \<in> set tasks. projectId t = Some p"
      and p: "p \<noteq> []" and cfg: "getGitlabCfgForProject e p = Inr cfg"
      and api: "\<forall>c \<in> set (chunks_of 59 (map issueId (sort_by compare_issueId tasks))).
            getByIds e c cfg = Inr (api c)"
      and enough: "length tasks
           \<le> length (concat (map api (chunks_of 59 (map issueId (sort_by compare_issueId tasks)))))"
      by simp_all
    from fetchMany_run [OF ne proj p cfg api enough]
    show "let ts = sort_by compare_issueId tasks;
           issues = concat (map api (chunks_of 59 (map issueId ts)))
       in snd (getFreshDataForIssueTasks e tasks) =
            (GetGitlabCfgForProject p # map (\<lambda>c. GetByIds c cfg) (chunks_of 59 (map issueId ts)),
             Inr (map (\<lambda>k. \<lparr> taskChanges =
                                 \<lparr> title_chg = ''#'' @ int_to_string (number (issues ! k))
                                                @ '' '' @ title (issues ! k),
                                   issuePoints = weight (issues ! k),
                                   issueWasUpdated = True,
                                   issueLastUpdated_chg = updated_at (issues ! k) \<rparr>,
                               issue = issues ! k,
                               task = ts ! k \<rparr>)
                    (filter (\<lambda>k. wasUpdated cfg (issues ! k) (ts ! k)) [0..<length tasks])))"
      by (simp add: Let_def spec_taskChanges_def)
  qed
next
  show "getFreshDataForIssueTask e t = (log, Inr (Some r)) \<longrightarrow>
      title_chg (taskChanges r) = ''#'' @ int_to_string (number (issue r)) @ '' '' @ title (issue r)
      \<and> issuePoints (taskChanges r) = weight (issue r)
      \<and> issueLastUpdated_chg (taskChanges r) = updated_at (issue r)
      \<and> issueWasUpdated (taskChanges r)"
  proof
    assume "getFreshDataForIssueTask e t = (log, Inr (Some r))"
    then have "taskChanges r = spec_taskChanges (issue r)"
      by (rule fetchOne_payload)
    then show "title_chg (taskChanges r) = ''#'' @ int_to_string (number (issue r)) @ '' '' @ title (issue r)
      \<and> issuePoints (taskChanges r) = weight (issue r)
      \<and> issueLastUpdated_chg (taskChanges r) = updated_at (issue r)
      \<and> issueWasUpdated (taskChanges r)"
      by (simp add: spec_taskChanges_def)
  qed
next
  show "getFreshDataForIssueTasks e tasks = (ts', log', Inr rs) \<longrightarrow>
      (\<forall>r' \<in> set rs.
         title_chg (taskChanges r') = ''#'' @ int_to_string (number (issue r')) @ '' '' @ title (issue r')
         \<and> issuePoints (taskChanges r') = weight (issue r')
         \<and> issueLastUpdated_chg (taskChanges r') = updated_at (issue r')
         \<and> issueWasUpdated (taskChanges r'))"
  proof
    assume "getFreshDataForIssueTasks e tasks = (ts', log', Inr rs)"
    then have "\<forall>r \<in> set rs. taskChanges r = spec_taskChanges (issue r)"
      by (rule fetchMany_payload)
    then show "\<forall>r' \<in> set rs.
         title_chg (taskChanges r') = ''#'' @ int_to_string (number (issue r')) @ '' '' @ title (issue r')
         \<and> issuePoints (taskChanges r') = weight (issue r')
         \<and> issueLastUpdated_chg (taskChanges r') = updated_at (issue r')
         \<and> issueWasUpdated (taskChanges r')"
      by (simp add: spec_taskChanges_def)
  qed
qed

lemma late_detected:
  "wasUpdated cfg_ex issue_late task_late" "\<not> wasUpdated cfg_ex issue_late task_seen"
  "lastRemoteUpdate cfg_ex issue_late = Num 2500"
  by code_simp+

lemma late_seen_sorted:
  "sort_by compare_issueId [task_late, task_seen] = [task_seen, task_late]"
  by (simp add: sort_by_def compare_issueId_def task_late_def task_ex_def task_seen_def
        numeric_ids)

lemma chunks_of_two: "chunks_of 59 [a, b] = [[a, b]]"
  by (simp add: chunks_of_Cons chunks_of_Nil)

lemma issue_late_fields:
  "number issue_late = 5" "title issue_late = ''Fix bug''" "weight issue_late = Some 3"
  "updated_at issue_late = Num 2000"
  by (simp_all add: issue_late_def issue_ex_def)

lemma five_digits: "int_to_string 5 = ''5''"
  by code_simp

theorem detected_change_payload_witness:
  "getFreshDataForIssueTask env_late task_late =
     ([GetGitlabCfgForProject ''p'', GetById (Num 5) cfg_ex],
      Inr (Some \<lparr> taskChanges =
                    \<lparr> title_chg = ''#5 Fix bug'', issuePoints = Some 3,
                      issueWasUpdated = True, issueLastUpdated_chg = Num 2000 \<rparr>,
                  issue = issue_late,
                  issueTitle = ''#5 Fix bug'' \<rparr>))
   \<and> lastRemoteUpdate cfg_ex issue_late = Num 2500
   \<and> snd (getFreshDataForIssueTasks env_late [task_late, task_seen]) =
       ([GetGitlabCfgForProject ''p'', GetByIds [Some ''7'', Some ''5''] cfg_ex],
        Inr [\<lparr> taskChanges =
                 \<lparr> title_chg = ''#5 Fix bug'', issuePoints = Some 3,
                   issueWasUpdated = True, issueLastUpdated_chg = Num 2000 \<rparr>,
               issue = issue_late,
               task = task_late \<rparr>])
   \<and> (\<exists>log r. getFreshDataForIssueTask env_late task_late = (log, Inr (Some r))
         \<and> issueLastUpdated_chg (taskChanges r) = updated_at (issue r)
         \<and> issueWasUpdated (taskChanges r))
   \<and> (\<exists>ts' log rs.
         getFreshDataForIssueTasks env_late [task_late, task_seen] = (ts', log, Inr rs)
         \<and> map (\<lambda>r. issueLastUpdated_chg (taskChanges r)) rs = map (\<lambda>r. updated_at (issue r)) rs
         \<and> length rs = 1)"
proof -
  let ?pay = "\<lparr> title_chg = ''#5 Fix bug'', issuePoints = Some 3,
                issueWasUpdated = True, issueLastUpdated_chg = Num 2000 \<rparr>"
  let ?one = "\<lparr> taskChanges = ?pay, issue = issue_late, issueTitle = ''#5 Fix bug'' \<rparr>"
  let ?entry = "\<lparr> taskChanges = ?pay, issue = issue_late, task = task_late \<rparr>"
  let ?log1 = "[GetGitlabCfgForProject ''p'', GetById (Num 5) cfg_ex]"
  let ?log2 = "[GetGitlabCfgForProject ''p'', GetByIds [Some ''7'', Some ''5''] cfg_ex]"
  note inst =
    detected_change_payload
      [where t = task_late and p = "''p''" and e = env_late and cfg = cfg_ex and i = issue_late
         and tasks = "[task_late, task_seen]" and api = "\<lambda>ids. map (\<lambda>_. issue_late) ids"
         and log = ?log1 and r = ?one and ts' = "[task_seen, task_late]" and log' = ?log2
         and rs = "[?entry]"]
  have one_hyp: "projectId task_late = Some ''p'' \<and> ''p'' \<noteq> [] \<and> truthy (issueId task_late)
      \<and> numeric_id (issueId task_late)
      \<and> getGitlabCfgForProject env_late ''p'' = Inr cfg_ex
      \<and> getById env_late (to_number (issueId task_late)) cfg_ex = Inr issue_late"
    by (simp add: task_late_def task_ex_def env_late_def env_ex_def numeric_ids_5_7)
  from conjunct1 [OF inst] one_hyp
  have "getFreshDataForIssueTask env_late task_late =
        ([GetGitlabCfgForProject ''p'', GetById (to_number (issueId task_late)) cfg_ex],
         Inr (if wasUpdated cfg_ex issue_late task_late
              then Some \<lparr> taskChanges =
                            \<lparr> title_chg = ''#'' @ int_to_string (number issue_late)
                                           @ '' '' @ title issue_late,
                              issuePoints = weight issue_late,
                              issueWasUpdated = True,
                              issueLastUpdated_chg = updated_at issue_late \<rparr>,
                          issue = issue_late,
                          issueTitle =
                            truncate_util env_late
                              (''#'' @ int_to_string (number issue_late)
                                 @ '' '' @ title issue_late) \<rparr>
              else None))"
    by (rule mp)
  moreover have "to_number (issueId task_late) = Num 5"
    by (simp add: task_late_def task_ex_def numeric_ids)
  moreover have "truncate_util env_late = (\<lambda>s. s)"
    by (simp add: env_late_def env_ex_def)
  ultimately have first: "getFreshDataForIssueTask env_late task_late =
     ([GetGitlabCfgForProject ''p'', GetById (Num 5) cfg_ex],
      Inr (Some \<lparr> taskChanges =
                    \<lparr> title_chg = ''#5 Fix bug'', issuePoints = Some 3,
                      issueWasUpdated = True, issueLastUpdated_chg = Num 2000 \<rparr>,
                  issue = issue_late,
                  issueTitle = ''#5 Fix bug'' \<rparr>))"
    by (simp add: late_detected issue_late_fields five_digits)
  have many_hyp: "[task_late, task_seen] \<noteq> []
      \<and> (\<forall>t \<in> set [task_late, task_seen]. numeric_id (issueId t) \<and> projectId t = Some ''p'')
      \<and> ''p'' \<noteq> [] \<and> getGitlabCfgForProject env_late ''p'' = Inr cfg_ex
      \<and> (\<forall>c \<in> set (chunks_of 59 (map issueId (sort_by compare_issueId [task_late, task_seen]))).
            getByIds env_late c cfg_ex = Inr (map (\<lambda>_. issue_late) c))
      \<and> length [task_late, task_seen]
           \<le> length (concat (map (\<lambda>ids. map (\<lambda>_. issue_late) ids)
                (chunks_of 59 (map issueId (sort_by compare_issueId [task_late, task_seen])))))"
    by (simp add: late_seen_sorted chunks_of_two)
       (simp add: task_late_def task_ex_def task_seen_def env_late_def env_ex_def
          numeric_ids_5_7)
  from conjunct1 [OF conjunct2 [OF inst]] many_hyp
  have "let ts = sort_by compare_issueId [task_late, task_seen];
            issues = concat (map (\<lambda>ids. map (\<lambda>_. issue_late) ids)
                               (chunks_of 59 (map issueId ts)))
        in snd (getFreshDataForIssueTasks env_late [task_late, task_seen]) =
            (GetGitlabCfgForProject ''p''
               # map (\<lambda>c. GetByIds c cfg_ex) (chunks_of 59 (map issueId ts)),
             Inr (map (\<lambda>k. \<lparr> taskChanges =
                                 \<lparr> title_chg = ''#'' @ int_to_string (number (issues ! k))
                                                @ '' '' @ title (issues ! k),
                                   issuePoints = weight (issues ! k),
                                   issueWasUpdated = True,
                                   issueLastUpdated_chg = updated_at (issues ! k) \<rparr>,
                               issue = issues ! k,
                               task = ts ! k \<rparr>)
                    (filter (\<lambda>k. wasUpdated cfg_ex (issues ! k) (ts ! k))
                       [0..<length [task_late, task_seen]])))"
    by (rule mp)
  moreover have "[0..<length [task_late, task_seen]] = [0, 1]"
    by (simp add: upt_rec)
  moreover have "issueId task_seen = Some ''7''" "issueId task_late = Some ''5''"
    by (simp_all add: task_seen_def task_late_def task_ex_def)
  ultimately
  have second: "snd (getFreshDataForIssueTasks env_late [task_late, task_seen]) =
       ([GetGitlabCfgForProject ''p'', GetByIds [Some ''7'', Some ''5''] cfg_ex],
        Inr [\<lparr> taskChanges =
                 \<lparr> title_chg = ''#5 Fix bug'', issuePoints = Some 3,
                   issueWasUpdated = True, issueLastUpdated_chg = Num 2000 \<rparr>,
               issue = issue_late,
               task = task_late \<rparr>])"
    by (simp add: Let_def late_seen_sorted chunks_of_two late_detected issue_late_fields
          five_digits)
  from conjunct1 [OF conjunct2 [OF conjunct2 [OF inst]]] first
  have "title_chg (taskChanges ?one)
          = ''#'' @ int_to_string (number (issue ?one)) @ '' '' @ title (issue ?one)
      \<and> issuePoints (taskChanges ?one) = weight (issue ?one)
      \<and> issueLastUpdated_chg (taskChanges ?one) = updated_at (issue ?one)
      \<and> issueWasUpdated (taskChanges ?one)"
    by (rule mp)
  with first
  have "getFreshDataForIssueTask env_late task_late = (?log1, Inr (Some ?one))
         \<and> issueLastUpdated_chg (taskChanges ?one) = updated_at (issue ?one)
         \<and> issueWasUpdated (taskChanges ?one)"
    by simp
  then have third: "\<exists>log r. getFreshDataForIssueTask env_late task_late = (log, Inr (Some r))
         \<and> issueLastUpdated_chg (taskChanges r) = updated_at (issue r)
         \<and> issueWasUpdated (taskChanges r)"
    by - ((rule exI)+, assumption)
  have whole: "getFreshDataForIssueTasks env_late [task_late, task_seen]
                 = ([task_seen, task_late], ?log2, Inr [?entry])"
    using second fetchMany_fst [of env_late "[task_late, task_seen]"]
    by (simp add: late_seen_sorted prod_eq_iff)
  from conjunct2 [OF conjunct2 [OF conjunct2 [OF inst]]] whole
  have "\<forall>r' \<in> set [?entry].
         title_chg (taskChanges r')
           = ''#'' @ int_to_string (number (issue r')) @ '' '' @ title (issue r')
         \<and> issuePoints (taskChanges r') = weight (issue r')
         \<and> issueLastUpdated_chg (taskChanges r') = updated_at (issue r')
         \<and> issueWasUpdated (taskChanges r')"
    by (rule mp)
  then have "map (\<lambda>r. issueLastUpdated_chg (taskChanges r)) [?entry]
               = map (\<lambda>r. updated_at (issue r)) [?entry]"
    by simp
  with whole
  have "getFreshDataForIssueTasks env_late [task_late, task_seen]
          = ([task_seen, task_late], ?log2, Inr [?entry])
         \<and> map (\<lambda>r. issueLastUpdated_chg (taskChanges r)) [?entry]
             = map (\<lambda>r. updated_at (issue r)) [?entry]
         \<and> length [?entry] = 1"
    by simp
  then have fourth: "\<exists>ts' log rs.
         getFreshDataForIssueTasks env_late [task_late, task_seen] = (ts', log, Inr rs)
         \<and> map (\<lambda>r. issueLastUpdated_chg (taskChanges r)) rs = map (\<lambda>r. updated_at (issue r)) rs
         \<and> length rs = 1"
    by - ((rule exI)+, assumption)
  from first late_detected(3) second third fourth show ?thesis by (intro conjI)
qed

subsection \<open>Search: the claim\<close>

text \<open>
  Claim C7 fails on the code. When the search is permitted and the API client fails, the
  error is suppressed, but it is not replaced by an empty result: the handler of
  \<^verbatim>\<open>catchError(() => [])\<close> returns an array, which as an observable emits nothing, so
  the search completes without a value. The branch for a search that is not permitted
  emits the empty list, \<^verbatim>\<open>of([])\<close>.
\<close>

theorem search_error_emits_nothing:
  "searchIssues env_ex ''bug'' ''p''
     = ([GetGitlabCfgForProject ''p'', SearchIssueInProject ''bug'' cfg_ex],
        \<lparr> emitted = [], failed = None \<rparr>)
   \<and> snd (searchIssues env_ex ''bug'' ''p'') \<noteq> of_obs []
   \<and> searchIssues
       (env_ex\<lparr>getGitlabCfgForProject :=
          (\<lambda>p. Inr (cfg_ex\<lparr>isSearchIssuesFromGitlab := False\<rparr>))\<rparr>) ''bug'' ''p''
     = ([GetGitlabCfgForProject ''p''], of_obs [])"
  by (simp add: searchIssues_def env_ex_def cfg_ex_def catchError_def from_array_def of_obs_def)

end
